theory Spec2Isabelle
  imports Complex_Main
begin

section \<open>Data model (core/models.py)\<close>

text \<open>
  The Sale and Inventory engine of the point-of-sale back office: sale creation
  (\<^verbatim>\<open>SaleCreateSerializer\<close>), sale cancellation (\<^verbatim>\<open>cancel_sale_view\<close>), manual stock
  adjustment (\<^verbatim>\<open>StockAdjustmentView\<close>) and the purchase order life cycle
  (\<^verbatim>\<open>PurchaseOrderCreateSerializer\<close>, \<^verbatim>\<open>receive_purchase_order\<close>,
  \<^verbatim>\<open>cancel_purchase_order\<close>).

  Python's \<^verbatim>\<open>Decimal\<close> values are modelled by their numeric value, a rational number.
  Every operand of the source is a decimal fraction and the only division is by
  \<^verbatim>\<open>Decimal('100')\<close>, so each intermediate result is again a decimal fraction and the
  arithmetic is exact as long as its coefficient fits the 28 significant digits of the
  default context; the model is of the computations inside that range.
  \<^verbatim>\<open>quantize(Decimal('0.01'))\<close> rounds half to even, the default context's rounding.

  Columns that none of the modelled operations reads or computes with (names, notes,
  time stamps, the random invoice and order numbers) are left out of the rows. Python
  and database integers are \<open>int\<close>.
\<close>

type_synonym decimal = rat

datatype error =
    ValidationError          \<comment> \<open>a serializer field rejects its input\<close>
  | NotFound                 \<comment> \<open>"... not found" (product, sale, supplier, purchase order)\<close>
  | InsufficientStock        \<comment> \<open>"Insufficient stock for ...", "Cannot remove ... units"\<close>
  | InsufficientPayment      \<comment> \<open>"Amount paid (...) is less than total (...)"\<close>
  | Conflict                 \<comment> \<open>"... already cancelled", "... already received"\<close>
  | DoesNotExist             \<comment> \<open>uncaught \<^verbatim>\<open>Model.DoesNotExist\<close> of an ORM \<^verbatim>\<open>get\<close>\<close>
  | MultipleObjectsReturned  \<comment> \<open>uncaught, from \<^verbatim>\<open>get_or_create\<close>\<close>
  | TypeError                \<comment> \<open>uncaught, \<^verbatim>\<open>Decimal * float\<close>\<close>

datatype payment_method = Cash | Card | Mobile
datatype sale_status = Completed | Pending | Cancelled
datatype movement_type = PurchaseMovement | SaleMovement | AdjustmentMovement
  | ReturnMovement | DamageMovement
datatype po_status = PODraft | POPending | POReceived | POCancelled
datatype adjustment_type = Add | Remove | SetTo

record product =
  price :: decimal
  tax_rate :: decimal
  stock_quantity :: int
  min_stock_level :: int

record sale =
  sale_cashier :: nat
  sale_subtotal :: decimal
  sale_tax_amount :: decimal
  sale_discount_amount :: decimal
  sale_total :: decimal
  sale_payment_method :: payment_method
  sale_amount_paid :: decimal
  sale_change_amount :: decimal
  sale_status :: sale_status

record sale_item =
  si_sale :: nat
  si_product :: int
  si_quantity :: int
  si_unit_price :: decimal
  si_tax_rate :: decimal
  si_discount_percent :: decimal
  si_subtotal :: decimal

record payment =
  pay_sale :: nat
  pay_payment_method :: payment_method
  pay_amount :: decimal

record stock_movement =
  mv_product :: int
  mv_movement_type :: movement_type
  mv_quantity :: int
  mv_previous_quantity :: int
  mv_new_quantity :: int
  mv_unit_cost :: "decimal option"
  mv_supplier :: "int option"
  mv_sale :: "nat option"
  mv_user :: nat

record purchase_order =
  po_supplier :: int
  po_status :: po_status
  po_subtotal :: decimal
  po_tax_amount :: decimal
  po_total :: decimal
  po_created_by :: nat

record purchase_order_item =
  poi_purchase_order :: nat
  poi_product :: int
  poi_quantity_ordered :: int
  poi_quantity_received :: int
  poi_unit_cost :: decimal
  poi_subtotal :: decimal

record stock_alert =
  alert_product :: int
  alert_level :: int
  alert_current_stock :: int
  alert_is_resolved :: bool

text \<open>
  The relational store. Products and suppliers are looked up by the id a request
  carries. Sales and purchase orders get their primary key from the table's
  auto-increment: the row at position \<open>i\<close> (from 0) of the list has \<open>pk = i + 1\<close>.
  The other tables are lists in insertion order. No modelled operation deletes a row.
\<close>

record store =
  products :: "int \<rightharpoonup> product"
  suppliers :: "int set"
  sales :: "sale list"
  sale_items :: "sale_item list"
  payments :: "payment list"
  stock_movements :: "stock_movement list"
  purchase_orders :: "purchase_order list"
  purchase_order_items :: "purchase_order_item list"
  stock_alerts :: "stock_alert list"

definition get_by_pk :: "'a list \<Rightarrow> nat \<Rightarrow> 'a option" where
  "get_by_pk rows pk = (if 1 \<le> pk \<and> pk \<le> length rows then Some (rows ! (pk - 1)) else None)"

text \<open>
  \<^verbatim>\<open>with transaction.atomic(): body\<close>. An exception that leaves the block rolls every
  write of the block back: the store is the one the block started from.
\<close>

definition atomic :: "store \<Rightarrow> (store \<Rightarrow> error + 'a \<times> store) \<Rightarrow> (error + 'a) \<times> store" where
  "atomic st body = (case body st of Inl e \<Rightarrow> (Inl e, st) | Inr (r, st') \<Rightarrow> (Inr r, st'))"

section \<open>Decimal helpers\<close>

definition round_half_even :: "rat \<Rightarrow> int" where
  "round_half_even x =
     (let f = \<lfloor>x\<rfloor>; d = x - of_int f
      in if d < 1 / 2 then f
         else if 1 / 2 < d then f + 1
         else if even f then f else f + 1)"

definition quantize :: "decimal \<Rightarrow> decimal" where
  \<comment> \<open>\<^verbatim>\<open>x.quantize(Decimal('0.01'))\<close>\<close>
  "quantize x = of_int (round_half_even (x * 100)) / 100"

text \<open>
  The money columns of core/models.py are \<^verbatim>\<open>DecimalField(max_digits=10, decimal_places=2)\<close>.
  When a row is saved such a column takes the attribute's value at the scale of the
  column: the ORM quantizes it to \<^verbatim>\<open>decimal_places\<close> in the default context, half to
  even like \<^verbatim>\<open>quantize\<close> above. The operations below apply \<open>to_column\<close> where they save a
  value they have computed or taken from unchecked input; a value copied from another
  column or from a validated two-decimal field is at the scale already.
\<close>

definition to_column :: "decimal \<Rightarrow> decimal" where
  "to_column x = quantize x"

definition decimal_field :: "nat \<Rightarrow> nat \<Rightarrow> decimal \<Rightarrow> bool" where
  \<comment> \<open>a serializer \<^verbatim>\<open>DecimalField(max_digits, decimal_places)\<close> accepts the value\<close>
  "decimal_field max_digits decimal_places x \<longleftrightarrow>
     of_int \<lfloor>x * 10 ^ decimal_places\<rfloor> = x * 10 ^ decimal_places
     \<and> \<bar>x\<bar> < 10 ^ (max_digits - decimal_places)"

section \<open>Sale creation (core/serializers.py, SaleCreateSerializer)\<close>

text \<open>
  The validated request. \<open>item_discount_percent = None\<close> is an item that leaves
  \<^verbatim>\<open>discount_percent\<close> out: the field's \<^verbatim>\<open>default=0\<close>, the Python integer, then
  stands in for it, as it does in \<^verbatim>\<open>item_data.get('discount_percent', 0)\<close>.
\<close>

record sale_item_data =
  item_product_id :: int
  item_quantity :: int
  item_discount_percent :: "decimal option"

record sale_attrs =
  attrs_items :: "sale_item_data list"
  attrs_payment_method :: payment_method
  attrs_amount_paid :: decimal

record calculated =
  calc_subtotal :: decimal
  calc_tax_amount :: decimal
  calc_discount_amount :: decimal
  calc_total :: decimal
  calc_change_amount :: decimal

definition item_fields_valid :: "sale_item_data \<Rightarrow> bool" where
  \<comment> \<open>\<^verbatim>\<open>SaleItemCreateSerializer\<close>: \<^verbatim>\<open>quantity\<close> has \<^verbatim>\<open>min_value=1\<close>; \<^verbatim>\<open>discount_percent\<close> is a
      \<^verbatim>\<open>DecimalField(max_digits=5, decimal_places=2, min_value=0, max_value=100)\<close>\<close>
  "item_fields_valid item_data \<longleftrightarrow>
     1 \<le> item_quantity item_data
     \<and> (case item_discount_percent item_data of
          None \<Rightarrow> True
        | Some d \<Rightarrow> decimal_field 5 2 d \<and> 0 \<le> d \<and> d \<le> 100)"

definition fields_valid :: "sale_attrs \<Rightarrow> bool" where
  \<comment> \<open>the declared fields and \<^verbatim>\<open>validate_items\<close>, which run before \<^verbatim>\<open>validate\<close>\<close>
  "fields_valid attrs \<longleftrightarrow>
     attrs_items attrs \<noteq> []
     \<and> list_all item_fields_valid (attrs_items attrs)
     \<and> decimal_field 10 2 (attrs_amount_paid attrs) \<and> 0 \<le> attrs_amount_paid attrs"

text \<open>The loop of \<^verbatim>\<open>validate\<close> over \<^verbatim>\<open>items_data\<close>, with its three running sums.\<close>

fun validate_items_loop ::
  "store \<Rightarrow> sale_item_data list \<Rightarrow> decimal \<Rightarrow> decimal \<Rightarrow> decimal
   \<Rightarrow> error + (decimal \<times> decimal \<times> decimal)" where
  "validate_items_loop st [] subtotal tax_amount discount_amount =
     Inr (subtotal, tax_amount, discount_amount)"
| "validate_items_loop st (item_data # rest) subtotal tax_amount discount_amount =
     (case products st (item_product_id item_data) of
        None \<Rightarrow> Inl NotFound
      | Some product \<Rightarrow>
          if stock_quantity product < item_quantity item_data then Inl InsufficientStock
          else
            let quantity = of_int (item_quantity item_data);
                unit_price = price product;
                discount_percent =
                  (case item_discount_percent item_data of None \<Rightarrow> 0 | Some d \<Rightarrow> d);
                rate = tax_rate product;
                item_subtotal = unit_price * quantity;
                item_discount = item_subtotal * (discount_percent / 100);
                item_after_discount = item_subtotal - item_discount;
                item_tax = item_after_discount * (rate / 100)
            in validate_items_loop st rest
                 (subtotal + item_subtotal) (tax_amount + item_tax)
                 (discount_amount + item_discount))"

definition validate :: "store \<Rightarrow> sale_attrs \<Rightarrow> error + calculated" where
  "validate st attrs =
     (case validate_items_loop st (attrs_items attrs) 0 0 0 of
        Inl e \<Rightarrow> Inl e
      | Inr (subtotal, tax_amount, discount_amount) \<Rightarrow>
          let total = quantize (subtotal - discount_amount + tax_amount);
              amount_paid = attrs_amount_paid attrs
          in if amount_paid < total then Inl InsufficientPayment
             else Inr \<lparr> calc_subtotal = quantize subtotal,
                        calc_tax_amount = quantize tax_amount,
                        calc_discount_amount = quantize discount_amount,
                        calc_total = total,
                        calc_change_amount = quantize (amount_paid - total) \<rparr>)"

definition is_valid :: "store \<Rightarrow> sale_attrs \<Rightarrow> error + calculated" where
  \<comment> \<open>\<^verbatim>\<open>serializer.is_valid\<close>: the field validators, then \<^verbatim>\<open>validate\<close>\<close>
  "is_valid st attrs = (if fields_valid attrs then validate st attrs else Inl ValidationError)"

text \<open>
  \<^verbatim>\<open>SaleItem.save\<close> (core/models.py) computes the subtotal and writes the row, whose
  subtotal column holds the computed value at two decimals. With the integer default
  for the discount, \<^verbatim>\<open>self.discount_percent / 100\<close> is the float \<^verbatim>\<open>0.0\<close> and the product
  of the \<^verbatim>\<open>Decimal\<close> \<^verbatim>\<open>base_amount\<close> with it raises \<^verbatim>\<open>TypeError\<close>.
\<close>

definition SaleItem_save ::
  "nat \<Rightarrow> int \<Rightarrow> int \<Rightarrow> decimal \<Rightarrow> decimal \<Rightarrow> decimal option \<Rightarrow> error + sale_item" where
  "SaleItem_save sale_pk product_id quantity unit_price rate discount_percent =
     (case discount_percent of
        None \<Rightarrow> Inl TypeError
      | Some d \<Rightarrow>
          let base_amount = unit_price * of_int quantity;
              discount = base_amount * (d / 100);
              tax = (base_amount - discount) * (rate / 100)
          in Inr \<lparr> si_sale = sale_pk, si_product = product_id, si_quantity = quantity,
                    si_unit_price = unit_price, si_tax_rate = rate,
                    si_discount_percent = d,
                    si_subtotal = to_column (base_amount - discount + tax) \<rparr>)"

text \<open>
  The body of the loop of \<^verbatim>\<open>create\<close> over \<^verbatim>\<open>items_data\<close>: the product row is read
  (\<^verbatim>\<open>select_for_update().get\<close>), the sale item is saved, the stock is decremented and
  the stock movement is written from the decremented stock.
\<close>

definition create_item :: "nat \<Rightarrow> nat \<Rightarrow> sale_item_data \<Rightarrow> store \<Rightarrow> error + store" where
  "create_item sale_pk user item_data st =
     (case products st (item_product_id item_data) of
        None \<Rightarrow> Inl DoesNotExist
      | Some product \<Rightarrow>
          (case SaleItem_save sale_pk (item_product_id item_data) (item_quantity item_data)
                  (price product) (tax_rate product) (item_discount_percent item_data) of
             Inl e \<Rightarrow> Inl e
           | Inr row \<Rightarrow>
               let product' = product\<lparr>stock_quantity :=
                                stock_quantity product - item_quantity item_data\<rparr>;
                   movement = \<lparr> mv_product = item_product_id item_data,
                                mv_movement_type = SaleMovement,
                                mv_quantity = - item_quantity item_data,
                                mv_previous_quantity =
                                  stock_quantity product' + item_quantity item_data,
                                mv_new_quantity = stock_quantity product',
                                mv_unit_cost = None, mv_supplier = None,
                                mv_sale = Some sale_pk, mv_user = user \<rparr>
               in Inr (st\<lparr> sale_items := sale_items st @ [row],
                            products := (products st)(item_product_id item_data \<mapsto> product'),
                            stock_movements := stock_movements st @ [movement] \<rparr>)))"

fun create_items_loop :: "nat \<Rightarrow> nat \<Rightarrow> sale_item_data list \<Rightarrow> store \<Rightarrow> error + store" where
  "create_items_loop sale_pk user [] st = Inr st"
| "create_items_loop sale_pk user (item_data # rest) st =
     (case create_item sale_pk user item_data st of
        Inl e \<Rightarrow> Inl e
      | Inr st' \<Rightarrow> create_items_loop sale_pk user rest st')"

definition new_sale :: "nat \<Rightarrow> sale_attrs \<Rightarrow> calculated \<Rightarrow> sale" where
  "new_sale user attrs calc =
     \<lparr> sale_cashier = user,
       sale_subtotal = calc_subtotal calc,
       sale_tax_amount = calc_tax_amount calc,
       sale_discount_amount = calc_discount_amount calc,
       sale_total = calc_total calc,
       sale_payment_method = attrs_payment_method attrs,
       sale_amount_paid = attrs_amount_paid attrs,
       sale_change_amount = calc_change_amount calc,
       sale_status = Completed \<rparr>"

definition create :: "store \<Rightarrow> nat \<Rightarrow> sale_attrs \<Rightarrow> calculated \<Rightarrow> (error + nat) \<times> store" where
  \<comment> \<open>returns the primary key of the new sale\<close>
  "create st user attrs calc =
     atomic st (\<lambda>st0.
       let st1 = st0\<lparr>sales := sales st0 @ [new_sale user attrs calc]\<rparr>;
           sale_pk = length (sales st1)
       in case create_items_loop sale_pk user (attrs_items attrs) st1 of
            Inl e \<Rightarrow> Inl e
          | Inr st2 \<Rightarrow>
              Inr (sale_pk,
                   st2\<lparr>payments := payments st2 @
                         [\<lparr> pay_sale = sale_pk,
                            pay_payment_method = attrs_payment_method attrs,
                            pay_amount = attrs_amount_paid attrs \<rparr>]\<rparr>))"

definition SaleCreateView_create :: "store \<Rightarrow> nat \<Rightarrow> sale_attrs \<Rightarrow> (error + nat) \<times> store" where
  \<comment> \<open>core/views.py: \<^verbatim>\<open>serializer.is_valid(raise_exception=True); serializer.save()\<close>\<close>
  "SaleCreateView_create st user attrs =
     (case is_valid st attrs of
        Inl e \<Rightarrow> (Inl e, st)
      | Inr calc \<Rightarrow> create st user attrs calc)"

section \<open>Sale cancellation (core/views.py, cancel_sale_view)\<close>

text \<open>
  The body of the loop over \<^verbatim>\<open>sale.items.all()\<close>: \<^verbatim>\<open>item.product\<close> reads the product
  row of this item, the stock is restored and the row saved.
\<close>

definition restore_item :: "sale_item \<Rightarrow> store \<Rightarrow> error + store" where
  "restore_item item st =
     (case products st (si_product item) of
        None \<Rightarrow> Inl DoesNotExist
      | Some product \<Rightarrow>
          Inr (st\<lparr>products := (products st)(si_product item \<mapsto>
                 product\<lparr>stock_quantity := stock_quantity product + si_quantity item\<rparr>)\<rparr>))"

fun restore_items_loop :: "sale_item list \<Rightarrow> store \<Rightarrow> error + store" where
  "restore_items_loop [] st = Inr st"
| "restore_items_loop (item # rest) st =
     (case restore_item item st of
        Inl e \<Rightarrow> Inl e
      | Inr st' \<Rightarrow> restore_items_loop rest st')"

definition cancel_sale_view :: "store \<Rightarrow> nat \<Rightarrow> (error + unit) \<times> store" where
  "cancel_sale_view st pk =
     (case get_by_pk (sales st) pk of
        None \<Rightarrow> (Inl NotFound, st)
      | Some sale \<Rightarrow>
          if sale_status sale = Cancelled then (Inl Conflict, st)
          else atomic st (\<lambda>st0.
            case restore_items_loop (filter (\<lambda>item. si_sale item = pk) (sale_items st0)) st0 of
              Inl e \<Rightarrow> Inl e
            | Inr st1 \<Rightarrow>
                Inr ((), st1\<lparr>sales := (sales st1)[pk - 1 := sale\<lparr>sale_status := Cancelled\<rparr>]\<rparr>)))"

section \<open>Manual stock adjustment (StockAdjustmentSerializer, StockAdjustmentView)\<close>

record adjustment_data =
  adj_product_id :: int
  adj_adjustment_type :: adjustment_type
  adj_quantity :: int

definition StockAdjustmentSerializer_is_valid ::
  "store \<Rightarrow> adjustment_data \<Rightarrow> error + product" where
  \<comment> \<open>the field \<^verbatim>\<open>quantity\<close> has \<^verbatim>\<open>min_value=0\<close>; then \<^verbatim>\<open>validate\<close>, which hands the
      product it read on as \<^verbatim>\<open>attrs['_product']\<close>\<close>
  "StockAdjustmentSerializer_is_valid st data =
     (if adj_quantity data < 0 then Inl ValidationError
      else case products st (adj_product_id data) of
             None \<Rightarrow> Inl NotFound
           | Some product \<Rightarrow>
               if adj_adjustment_type data = Remove
                  \<and> stock_quantity product < adj_quantity data
               then Inl InsufficientStock
               else Inr product)"

definition open_alerts :: "store \<Rightarrow> int \<Rightarrow> stock_alert list" where
  \<comment> \<open>\<^verbatim>\<open>StockAlert.objects.filter(product=product, is_resolved=False)\<close>\<close>
  "open_alerts st product_id =
     filter (\<lambda>a. alert_product a = product_id \<and> \<not> alert_is_resolved a) (stock_alerts st)"

definition alert_get_or_create :: "int \<Rightarrow> int \<Rightarrow> int \<Rightarrow> store \<Rightarrow> error + store" where
  \<comment> \<open>\<^verbatim>\<open>StockAlert.objects.get_or_create(product=product, is_resolved=False, defaults=...)\<close>:
      the \<^verbatim>\<open>get\<close> inside raises when more than one row matches\<close>
  "alert_get_or_create product_id level current st =
     (case open_alerts st product_id of
        [] \<Rightarrow> Inr (st\<lparr>stock_alerts := stock_alerts st @
                       [\<lparr> alert_product = product_id, alert_level = level,
                          alert_current_stock = current, alert_is_resolved = False \<rparr>]\<rparr>)
      | [a] \<Rightarrow> Inr st
      | _ \<Rightarrow> Inl MultipleObjectsReturned)"

definition StockAdjustmentView_post ::
  "store \<Rightarrow> nat \<Rightarrow> adjustment_data \<Rightarrow> (error + stock_movement) \<times> store" where
  "StockAdjustmentView_post st user data =
     (case StockAdjustmentSerializer_is_valid st data of
        Inl e \<Rightarrow> (Inl e, st)
      | Inr product \<Rightarrow>
          atomic st (\<lambda>st0.
            let quantity = adj_quantity data;
                previous_quantity = stock_quantity product;
                (new_quantity, movement_quantity) =
                  (case adj_adjustment_type data of
                     Add \<Rightarrow> (previous_quantity + quantity, quantity)
                   | Remove \<Rightarrow> (previous_quantity - quantity, - quantity)
                   | SetTo \<Rightarrow> (quantity, quantity - previous_quantity));
                movement = \<lparr> mv_product = adj_product_id data,
                             mv_movement_type = AdjustmentMovement,
                             mv_quantity = movement_quantity,
                             mv_previous_quantity = previous_quantity,
                             mv_new_quantity = new_quantity,
                             mv_unit_cost = None, mv_supplier = None,
                             mv_sale = None, mv_user = user \<rparr>;
                st1 = st0\<lparr> products := (products st0)(adj_product_id data \<mapsto>
                                  product\<lparr>stock_quantity := new_quantity\<rparr>),
                           stock_movements := stock_movements st0 @ [movement] \<rparr>
            in if new_quantity \<le> min_stock_level product
               then (case alert_get_or_create (adj_product_id data) (min_stock_level product)
                            new_quantity st1 of
                       Inl e \<Rightarrow> Inl e
                     | Inr st2 \<Rightarrow> Inr (movement, st2))
               else Inr (movement, st1)))"

section \<open>Purchase orders (PurchaseOrderCreateSerializer, receive and cancel views)\<close>

record po_item_data =
  po_item_product_id :: int
  po_item_quantity :: int
  po_item_unit_cost :: decimal

record po_attrs =
  po_attrs_supplier_id :: int
  po_attrs_items :: "po_item_data list"

definition po_is_valid :: "store \<Rightarrow> po_attrs \<Rightarrow> error option" where
  \<comment> \<open>\<^verbatim>\<open>validate_supplier_id\<close> and \<^verbatim>\<open>validate_items\<close>; the items are dictionaries whose
      values no field checks\<close>
  "po_is_valid st attrs =
     (if po_attrs_supplier_id attrs \<notin> suppliers st then Some NotFound
      else if po_attrs_items attrs = [] then Some ValidationError
      else None)"

text \<open>
  The body of the loop of \<^verbatim>\<open>create\<close>: the product is read, the item row is created
  (\<^verbatim>\<open>PurchaseOrderItem.save\<close> sets its subtotal; unit cost and subtotal are saved at the
  scale of their columns) and the running subtotal grows by the unrounded product.
\<close>

definition po_create_item ::
  "nat \<Rightarrow> po_item_data \<Rightarrow> decimal \<times> store \<Rightarrow> error + decimal \<times> store" where
  "po_create_item po_pk item_data acc =
     (case acc of (subtotal, st) \<Rightarrow>
        (case products st (po_item_product_id item_data) of
           None \<Rightarrow> Inl DoesNotExist
         | Some product \<Rightarrow>
             let quantity = po_item_quantity item_data;
                 unit_cost = po_item_unit_cost item_data;
                 row = \<lparr> poi_purchase_order = po_pk,
                         poi_product = po_item_product_id item_data,
                         poi_quantity_ordered = quantity,
                         poi_quantity_received = 0,
                         poi_unit_cost = to_column unit_cost,
                         poi_subtotal = to_column (unit_cost * of_int quantity) \<rparr>
             in Inr (subtotal + unit_cost * of_int quantity,
                     st\<lparr>purchase_order_items := purchase_order_items st @ [row]\<rparr>)))"

definition PurchaseOrder_row :: "purchase_order \<Rightarrow> purchase_order" where
  \<comment> \<open>the row \<^verbatim>\<open>po.save()\<close> writes: the three money columns at the scale of the column\<close>
  "PurchaseOrder_row po =
     po\<lparr> po_subtotal := to_column (po_subtotal po),
          po_tax_amount := to_column (po_tax_amount po),
          po_total := to_column (po_total po) \<rparr>"

fun po_create_items_loop ::
  "nat \<Rightarrow> po_item_data list \<Rightarrow> decimal \<times> store \<Rightarrow> error + decimal \<times> store" where
  "po_create_items_loop po_pk [] acc = Inr acc"
| "po_create_items_loop po_pk (item_data # rest) acc =
     (case po_create_item po_pk item_data acc of
        Inl e \<Rightarrow> Inl e
      | Inr acc' \<Rightarrow> po_create_items_loop po_pk rest acc')"

definition po_create :: "store \<Rightarrow> nat \<Rightarrow> po_attrs \<Rightarrow> (error + nat) \<times> store" where
  \<comment> \<open>\<^verbatim>\<open>PurchaseOrderCreateSerializer.create\<close>; returns the primary key of the new order\<close>
  "po_create st user attrs =
     atomic st (\<lambda>st0.
       let po = \<lparr> po_supplier = po_attrs_supplier_id attrs, po_status = POPending,
                  po_subtotal = 0, po_tax_amount = 0, po_total = 0,
                  po_created_by = user \<rparr>;
           st1 = st0\<lparr>purchase_orders := purchase_orders st0 @ [po]\<rparr>;
           po_pk = length (purchase_orders st1)
       in case po_create_items_loop po_pk (po_attrs_items attrs) (0, st1) of
            Inl e \<Rightarrow> Inl e
          | Inr (subtotal, st2) \<Rightarrow>
              let po1 = po\<lparr>po_subtotal := subtotal\<rparr>;
                  po2 = po1\<lparr>po_tax_amount := subtotal * (16 / 100)\<rparr>;
                  po3 = po2\<lparr>po_total := po_subtotal po2 + po_tax_amount po2\<rparr>
              in Inr (po_pk,
                      st2\<lparr>purchase_orders :=
                            (purchase_orders st2)[po_pk - 1 := PurchaseOrder_row po3]\<rparr>))"

definition PurchaseOrderCreateView_create ::
  "store \<Rightarrow> nat \<Rightarrow> po_attrs \<Rightarrow> (error + nat) \<times> store" where
  "PurchaseOrderCreateView_create st user attrs =
     (case po_is_valid st attrs of
        Some e \<Rightarrow> (Inl e, st)
      | None \<Rightarrow> po_create st user attrs)"

text \<open>
  The body of the loop of \<^verbatim>\<open>receive_purchase_order\<close> over \<^verbatim>\<open>po.items.all()\<close>; the item
  comes with its position in the table, where \<^verbatim>\<open>item.save()\<close> writes it back.
\<close>

definition resolve_alerts :: "int \<Rightarrow> stock_alert list \<Rightarrow> stock_alert list" where
  \<comment> \<open>\<^verbatim>\<open>filter(product=product, is_resolved=False).update(is_resolved=True, ...)\<close>\<close>
  "resolve_alerts product_id alerts =
     map (\<lambda>a. if alert_product a = product_id \<and> \<not> alert_is_resolved a
              then a\<lparr>alert_is_resolved := True\<rparr> else a) alerts"

definition receive_item ::
  "purchase_order \<Rightarrow> nat \<Rightarrow> nat \<times> purchase_order_item \<Rightarrow> store \<Rightarrow> error + store" where
  "receive_item po user indexed st =
     (case indexed of (i, item) \<Rightarrow>
        (case products st (poi_product item) of
           None \<Rightarrow> Inl DoesNotExist
         | Some product \<Rightarrow>
             let previous_quantity = stock_quantity product;
                 new_quantity = previous_quantity + poi_quantity_ordered item;
                 item' = item\<lparr> poi_quantity_received := poi_quantity_ordered item,
                               poi_subtotal :=
                                 poi_unit_cost item * of_int (poi_quantity_ordered item) \<rparr>;
                 movement = \<lparr> mv_product = poi_product item,
                              mv_movement_type = PurchaseMovement,
                              mv_quantity = poi_quantity_ordered item,
                              mv_previous_quantity = previous_quantity,
                              mv_new_quantity = new_quantity,
                              mv_unit_cost = Some (poi_unit_cost item),
                              mv_supplier = Some (po_supplier po),
                              mv_sale = None, mv_user = user \<rparr>
             in Inr (st\<lparr> products := (products st)(poi_product item \<mapsto>
                                product\<lparr>stock_quantity := new_quantity\<rparr>),
                          purchase_order_items := (purchase_order_items st)[i := item'],
                          stock_movements := stock_movements st @ [movement],
                          stock_alerts := resolve_alerts (poi_product item) (stock_alerts st) \<rparr>)))"

fun receive_items_loop ::
  "purchase_order \<Rightarrow> nat \<Rightarrow> (nat \<times> purchase_order_item) list \<Rightarrow> store \<Rightarrow> error + store" where
  "receive_items_loop po user [] st = Inr st"
| "receive_items_loop po user (indexed # rest) st =
     (case receive_item po user indexed st of
        Inl e \<Rightarrow> Inl e
      | Inr st' \<Rightarrow> receive_items_loop po user rest st')"

definition po_items :: "store \<Rightarrow> nat \<Rightarrow> (nat \<times> purchase_order_item) list" where
  \<comment> \<open>\<^verbatim>\<open>po.items.all()\<close>, each row with its position in the table\<close>
  "po_items st pk =
     filter (\<lambda>(i, item). poi_purchase_order item = pk) (enumerate 0 (purchase_order_items st))"

definition receive_purchase_order :: "store \<Rightarrow> nat \<Rightarrow> nat \<Rightarrow> (error + unit) \<times> store" where
  "receive_purchase_order st user pk =
     (case get_by_pk (purchase_orders st) pk of
        None \<Rightarrow> (Inl NotFound, st)
      | Some po \<Rightarrow>
          if po_status po = POReceived then (Inl Conflict, st)
          else atomic st (\<lambda>st0.
            case receive_items_loop po user (po_items st0 pk) st0 of
              Inl e \<Rightarrow> Inl e
            | Inr st1 \<Rightarrow>
                Inr ((), st1\<lparr>purchase_orders :=
                           (purchase_orders st1)[pk - 1 := po\<lparr>po_status := POReceived\<rparr>]\<rparr>)))"

definition cancel_purchase_order :: "store \<Rightarrow> nat \<Rightarrow> (error + unit) \<times> store" where
  "cancel_purchase_order st pk =
     (case get_by_pk (purchase_orders st) pk of
        None \<Rightarrow> (Inl NotFound, st)
      | Some po \<Rightarrow>
          if po_status po = POReceived then (Inl Conflict, st)
          else (Inr (),
                st\<lparr>purchase_orders :=
                     (purchase_orders st)[pk - 1 := po\<lparr>po_status := POCancelled\<rparr>]\<rparr>))"

section \<open>The quantities the specification speaks of\<close>

text \<open>
  Rounding to two decimals, half to even, said without the code's \<^verbatim>\<open>quantize\<close>: \<open>r\<close> is a
  whole number of cents, at most half a cent from \<open>x\<close>, and an even number of cents when
  \<open>x\<close> lies half way between two.
\<close>

definition is_cents :: "decimal \<Rightarrow> bool" where
  "is_cents x \<longleftrightarrow> of_int \<lfloor>x * 100\<rfloor> = x * 100"


text \<open>
  An item is in stock when its product exists and holds at least the quantity asked
  for; \<open>discount_given\<close> says that the item spells its discount out.
\<close>

definition in_stock :: "store \<Rightarrow> sale_item_data \<Rightarrow> bool" where
  "in_stock st item_data =
     (case products st (item_product_id item_data) of
        None \<Rightarrow> False
      | Some product \<Rightarrow> item_quantity item_data \<le> stock_quantity product)"







text \<open>An item is over stock when its product exists and holds less than the quantity asked for.\<close>

definition over_stock :: "store \<Rightarrow> sale_item_data \<Rightarrow> bool" where
  "over_stock st item_data =
     (case products st (item_product_id item_data) of
        None \<Rightarrow> False
      | Some product \<Rightarrow> stock_quantity product < item_quantity item_data)"

text \<open>
  The ledger invariant of a stock movement, and the movements an operation has added:
  the rows of the later store beyond those of the earlier one.
\<close>

definition movement_consistent :: "stock_movement \<Rightarrow> bool" where
  "movement_consistent m \<longleftrightarrow> mv_new_quantity m - mv_previous_quantity m = mv_quantity m"

definition new_movements :: "store \<Rightarrow> store \<Rightarrow> stock_movement list" where
  "new_movements st st' = drop (length (stock_movements st)) (stock_movements st')"

text \<open>
  The quantity a list of purchase order items orders of one product, the products the
  items name, and the row \<^verbatim>\<open>item.save()\<close> leaves for a received item.
\<close>

definition ordered_in :: "(nat \<times> purchase_order_item) list \<Rightarrow> int \<Rightarrow> int" where
  "ordered_in xs product_id =
     (\<Sum>x\<leftarrow>xs. if poi_product (snd x) = product_id then poi_quantity_ordered (snd x) else 0)"

definition products_of :: "(nat \<times> purchase_order_item) list \<Rightarrow> int set" where
  "products_of xs = set (map (\<lambda>x. poi_product (snd x)) xs)"

definition received_row :: "purchase_order_item \<Rightarrow> purchase_order_item" where
  "received_row item =
     item\<lparr> poi_quantity_received := poi_quantity_ordered item,
           poi_subtotal := poi_unit_cost item * of_int (poi_quantity_ordered item) \<rparr>"

definition items_resolve :: "store \<Rightarrow> (nat \<times> purchase_order_item) list \<Rightarrow> bool" where
  \<comment> \<open>the foreign key \<^verbatim>\<open>PurchaseOrderItem.product\<close>: every item names a product row\<close>
  "items_resolve st xs = list_all (\<lambda>x. products st (poi_product (snd x)) \<noteq> None) xs"

definition add_stock :: "int \<Rightarrow> product \<Rightarrow> product" where
  "add_stock n product = product\<lparr>stock_quantity := stock_quantity product + n\<rparr>"

definition resolve_for :: "int set \<Rightarrow> stock_alert \<Rightarrow> stock_alert" where
  "resolve_for ids a =
     (if alert_product a \<in> ids \<and> \<not> alert_is_resolved a
      then a\<lparr>alert_is_resolved := True\<rparr> else a)"

text \<open>The status of the purchase order with a given primary key, when there is one.\<close>

definition po_status_at :: "store \<Rightarrow> nat \<Rightarrow> po_status option" where
  "po_status_at st pk = map_option po_status (get_by_pk (purchase_orders st) pk)"

text \<open>
  The items of a sale (\<^verbatim>\<open>sale.items.all()\<close>), the quantity a list of sale items holds of one
  product, and the foreign key of the sale item table.
\<close>

definition items_of_sale :: "store \<Rightarrow> nat \<Rightarrow> sale_item list" where
  "items_of_sale st pk = filter (\<lambda>item. si_sale item = pk) (sale_items st)"

definition sold_in :: "sale_item list \<Rightarrow> int \<Rightarrow> int" where
  "sold_in items product_id =
     (\<Sum>item\<leftarrow>items. if si_product item = product_id then si_quantity item else 0)"

definition sale_items_resolve :: "store \<Rightarrow> sale_item list \<Rightarrow> bool" where
  "sale_items_resolve st items = list_all (\<lambda>item. products st (si_product item) \<noteq> None) items"

text \<open>
  The stock and the signed delta of a manual adjustment in the specification's words,
  for the previous stock \<open>p\<close> and the requested quantity \<open>q\<close>, and the alert a breach
  opens.
\<close>

definition adjusted_stock :: "adjustment_type \<Rightarrow> int \<Rightarrow> int \<Rightarrow> int" where
  "adjusted_stock ty p q = (case ty of Add \<Rightarrow> p + q | Remove \<Rightarrow> p - q | SetTo \<Rightarrow> q)"

definition adjustment_delta :: "adjustment_type \<Rightarrow> int \<Rightarrow> int \<Rightarrow> int" where
  "adjustment_delta ty p q = (case ty of Add \<Rightarrow> q | Remove \<Rightarrow> - q | SetTo \<Rightarrow> q - p)"

definition low_stock_alert :: "int \<Rightarrow> product \<Rightarrow> int \<Rightarrow> stock_alert" where
  "low_stock_alert product_id product current =
     \<lparr> alert_product = product_id, alert_level = min_stock_level product,
       alert_current_stock = current, alert_is_resolved = False \<rparr>"



text \<open>
  The discount- and tax-inclusive amount of a sale item, from the row's own columns:
  unit price times quantity, minus the discount on it, plus the tax on the discounted
  amount. A row's subtotal is inclusive when it is that amount, and rounded when it is
  that amount rounded to two decimals. Then the sale items an operation has added, and
  the charge of a request item priced with the product the store holds: subtotal minus
  discount plus tax.
\<close>

definition inclusive_amount :: "sale_item \<Rightarrow> decimal" where
  "inclusive_amount row =
     si_unit_price row * of_int (si_quantity row)
     - si_unit_price row * of_int (si_quantity row) * si_discount_percent row / 100
     + (si_unit_price row * of_int (si_quantity row)
        - si_unit_price row * of_int (si_quantity row) * si_discount_percent row / 100)
       * si_tax_rate row / 100"

definition subtotal_inclusive :: "sale_item \<Rightarrow> bool" where
  "subtotal_inclusive row \<longleftrightarrow> si_subtotal row = inclusive_amount row"






section \<open>Example stores and requests\<close>

definition shop :: store where
  "shop = \<lparr> products = [1 \<mapsto> \<lparr>price = 100, tax_rate = 16, stock_quantity = 5,
                                 min_stock_level = 10\<rparr>],
            suppliers = {1}, sales = [], sale_items = [], payments = [],
            stock_movements = [], purchase_orders = [], purchase_order_items = [],
            stock_alerts = [] \<rparr>"

definition two_units :: sale_attrs where
  "two_units = \<lparr> attrs_items = [\<lparr>item_product_id = 1, item_quantity = 2,
                                     item_discount_percent = Some 10\<rparr>],
                 attrs_payment_method = Cash, attrs_amount_paid = 250 \<rparr>"

definition unknown_then_over :: sale_attrs where
  "unknown_then_over =
     \<lparr> attrs_items = [\<lparr>item_product_id = 2, item_quantity = 1, item_discount_percent = Some 0\<rparr>,
                      \<lparr>item_product_id = 1, item_quantity = 6, item_discount_percent = Some 0\<rparr>],
       attrs_payment_method = Cash, attrs_amount_paid = 1000 \<rparr>"

definition six_units :: sale_attrs where
  "six_units =
     \<lparr> attrs_items = [\<lparr>item_product_id = 1, item_quantity = 6, item_discount_percent = Some 0\<rparr>],
       attrs_payment_method = Cash, attrs_amount_paid = 1000 \<rparr>"

definition shop_with_order :: store where
  "shop_with_order =
     shop\<lparr> purchase_orders :=
             [\<lparr> po_supplier = 1, po_status = POPending, po_subtotal = 50,
                po_tax_amount = 8, po_total = 58, po_created_by = 7 \<rparr>],
           purchase_order_items :=
             [\<lparr> poi_purchase_order = 1, poi_product = 1, poi_quantity_ordered = 10,
                poi_quantity_received = 0, poi_unit_cost = 5, poi_subtotal = 50 \<rparr>],
           stock_alerts :=
             [\<lparr> alert_product = 1, alert_level = 10, alert_current_stock = 5,
                alert_is_resolved = False \<rparr>] \<rparr>"

definition remove_three :: adjustment_data where
  "remove_three = \<lparr> adj_product_id = 1, adj_adjustment_type = Remove, adj_quantity = 3 \<rparr>"

definition order_ten :: po_attrs where
  "order_ten = \<lparr> po_attrs_supplier_id = 1,
                 po_attrs_items = [\<lparr> po_item_product_id = 1, po_item_quantity = 10,
                                     po_item_unit_cost = 5 \<rparr>] \<rparr>"

definition shop_after_receipt :: store where
  "shop_after_receipt = snd (receive_purchase_order shop_with_order 7 1)"

definition shop_with_cancelled_order :: store where
  "shop_with_cancelled_order = snd (cancel_purchase_order shop_with_order 1)"

definition shop_after_sale :: store where
  "shop_after_sale = snd (SaleCreateView_create shop 7 two_units)"

definition shop_after_cancel :: store where
  "shop_after_cancel = snd (cancel_sale_view shop_after_sale 1)"

definition shop_without_alert :: store where
  "shop_without_alert = shop_with_order\<lparr>stock_alerts := []\<rparr>"

definition add_twenty :: adjustment_data where
  "add_twenty = \<lparr> adj_product_id = 1, adj_adjustment_type = Add, adj_quantity = 20 \<rparr>"

definition remove_six :: adjustment_data where
  "remove_six = \<lparr> adj_product_id = 1, adj_adjustment_type = Remove, adj_quantity = 6 \<rparr>"

definition penny_shop :: store where
  "penny_shop = shop\<lparr>products := [1 \<mapsto> \<lparr>price = 1 / 100, tax_rate = 0, stock_quantity = 1,
                                          min_stock_level = 0\<rparr>]\<rparr>"

definition half_price :: sale_attrs where
  "half_price = \<lparr> attrs_items = [\<lparr>item_product_id = 1, item_quantity = 1,
                                      item_discount_percent = Some 50\<rparr>],
                  attrs_payment_method = Cash, attrs_amount_paid = 1 / 100 \<rparr>"

definition two_units_default :: sale_attrs where
  "two_units_default = \<lparr> attrs_items = [\<lparr>item_product_id = 1, item_quantity = 2,
                                             item_discount_percent = None\<rparr>],
                         attrs_payment_method = Cash, attrs_amount_paid = 250 \<rparr>"

definition corner_shop :: store where
  "corner_shop = shop\<lparr>products := [1 \<mapsto> \<lparr>price = 1999 / 100, tax_rate = 16,
                                           stock_quantity = 5, min_stock_level = 10\<rparr>]\<rparr>"

definition one_unit :: sale_attrs where
  "one_unit = \<lparr> attrs_items = [\<lparr>item_product_id = 1, item_quantity = 1,
                                    item_discount_percent = Some 0\<rparr>],
                attrs_payment_method = Cash, attrs_amount_paid = 25 \<rparr>"

definition corner_item :: sale_item where
  "corner_item = hd (sale_items (snd (SaleCreateView_create corner_shop 7 one_unit)))"

definition penny_sale :: sale where
  "penny_sale = hd (sales (snd (SaleCreateView_create penny_shop 7 half_price)))"

definition add_zero :: adjustment_data where
  "add_zero = \<lparr> adj_product_id = 1, adj_adjustment_type = Add, adj_quantity = 0 \<rparr>"

definition order_thirds :: po_attrs where
  "order_thirds = \<lparr> po_attrs_supplier_id = 1,
                    po_attrs_items = [\<lparr> po_item_product_id = 1, po_item_quantity = 3,
                                        po_item_unit_cost = 33 / 100 \<rparr>] \<rparr>"

definition thirds_order :: purchase_order where
  "thirds_order = hd (purchase_orders (snd (PurchaseOrderCreateView_create shop 7 order_thirds)))"

section \<open>Decimal arithmetic\<close>






lemma is_cents_quantize: "is_cents (quantize x)"
  by (simp add: is_cents_def quantize_def)













section \<open>Sale creation: totals\<close>



lemma create_item_frame:
  "create_item sale_pk user item_data st = Inr st' \<Longrightarrow>
     sales st' = sales st \<and> payments st' = payments st
     \<and> stock_alerts st' = stock_alerts st \<and> suppliers st' = suppliers st
     \<and> purchase_orders st' = purchase_orders st
     \<and> purchase_order_items st' = purchase_order_items st
     \<and> dom (products st') = dom (products st)"
  by (auto simp: create_item_def Let_def split: option.splits sum.splits if_splits)

lemma create_items_loop_frame:
  "create_items_loop sale_pk user items st = Inr st' \<Longrightarrow>
     sales st' = sales st \<and> payments st' = payments st
     \<and> stock_alerts st' = stock_alerts st \<and> suppliers st' = suppliers st
     \<and> purchase_orders st' = purchase_orders st
     \<and> purchase_order_items st' = purchase_order_items st
     \<and> dom (products st') = dom (products st)"
proof (induction items arbitrary: st)
  case Nil
  then show ?case by simp
next
  case (Cons item_data rest)
  from Cons.prems obtain st1 where
    s1: "create_item sale_pk user item_data st = Inr st1"
    and s2: "create_items_loop sale_pk user rest st1 = Inr st'"
    by (auto split: sum.splits)
  from create_item_frame [OF s1] Cons.IH [OF s2] show ?case by simp
qed











text \<open>
  Claim C1 as stated has the persisted Sale satisfy total = subtotal - discount_amount +
  tax_amount. One unit at 0.01 with 50 percent discount and no tax is stored with
  subtotal 0.01, discount 0.00 (the half cent goes to the even side), tax 0.00 and total
  0.00: the stored columns are a cent apart.
\<close>

theorem sale_columns_counterexample:
  "fst (SaleCreateView_create penny_shop 7 half_price) = Inr 1
   \<and> sale_subtotal penny_sale = 1 / 100 \<and> sale_discount_amount penny_sale = 0
   \<and> sale_tax_amount penny_sale = 0 \<and> sale_total penny_sale = 0
   \<and> sale_total penny_sale
       \<noteq> sale_subtotal penny_sale - sale_discount_amount penny_sale + sale_tax_amount penny_sale"
  by code_simp

text \<open>
  A request item that leaves its discount out passes validation, but \<^verbatim>\<open>SaleItem.save\<close>
  then raises and the transaction leaves no row behind.
\<close>

lemma omitted_discount_example:
  "fst (SaleCreateView_create shop 7 two_units_default) = Inl TypeError
   \<and> sales (snd (SaleCreateView_create shop 7 two_units_default)) = sales shop
   \<and> sale_items (snd (SaleCreateView_create shop 7 two_units_default)) = sale_items shop"
  by code_simp

section \<open>Sale creation: requests beyond the stock\<close>

lemma validate_items_loop_over_stock:
  "list_ex (over_stock st) items \<Longrightarrow> \<exists>e. validate_items_loop st items s t d = Inl e"
proof (induction items arbitrary: s t d)
  case Nil
  then show ?case by simp
next
  case (Cons item_data rest)
  show ?case
  proof (cases "products st (item_product_id item_data)")
    case None
    then show ?thesis by simp
  next
    case (Some product)
    show ?thesis
    proof (cases "stock_quantity product < item_quantity item_data")
      case True
      with Some show ?thesis by simp
    next
      case False
      with Some have "\<not> over_stock st item_data"
        by (simp add: over_stock_def)
      with Cons.prems have "list_ex (over_stock st) rest"
        by simp
      from Cons.IH [OF this] Some False show ?thesis by (simp add: Let_def)
    qed
  qed
qed

lemma validate_items_loop_first_over_stock:
  "list_all (in_stock st) pre \<Longrightarrow> over_stock st item_data \<Longrightarrow>
   validate_items_loop st (pre @ item_data # post) s t d = Inl InsufficientStock"
proof (induction pre arbitrary: s t d)
  case Nil
  then show ?case by (auto simp: over_stock_def split: option.splits)
next
  case (Cons a pre)
  from Cons.prems(1) have a: "in_stock st a" and pre: "list_all (in_stock st) pre"
    by simp_all
  from a obtain product where "products st (item_product_id a) = Some product"
    "\<not> stock_quantity product < item_quantity a"
    by (auto simp: in_stock_def split: option.splits)
  then show ?case
    by (simp add: Let_def Cons.IH [OF pre Cons.prems(2)])
qed

text \<open>
  Claim C2, as amended. A sale request in which some item asks for more than its
  product's stock fails, and the store after the call is the store before it: no Sale,
  SaleItem, Payment or StockMovement row is written. The items are checked in the order
  of the request, product lookup before stock, so the failure is InsufficientStock when
  the request passes the field validators and every item before the first one over
  stock is in stock.
\<close>

theorem over_stock_sale_rejected:
  assumes "list_ex (over_stock st) (attrs_items attrs)"
  shows "(\<exists>e. SaleCreateView_create st user attrs = (Inl e, st))
     \<and> (fields_valid attrs \<and> attrs_items attrs = pre @ item_data # post
          \<and> list_all (in_stock st) pre \<and> over_stock st item_data
        \<longrightarrow> SaleCreateView_create st user attrs = (Inl InsufficientStock, st))"
proof -
  from validate_items_loop_over_stock [OF assms] obtain e where
    "validate_items_loop st (attrs_items attrs) 0 0 0 = Inl e" by blast
  then have "validate st attrs = Inl e" by (simp add: validate_def)
  then have "\<exists>e. is_valid st attrs = Inl e" by (simp add: is_valid_def)
  then have first: "\<exists>e. SaleCreateView_create st user attrs = (Inl e, st)"
    by (auto simp: SaleCreateView_create_def)
  have second: "SaleCreateView_create st user attrs = (Inl InsufficientStock, st)"
    if "fields_valid attrs" "attrs_items attrs = pre @ item_data # post"
      "list_all (in_stock st) pre" "over_stock st item_data"
  proof -
    have "validate st attrs = Inl InsufficientStock"
      by (simp add: validate_def that(2) validate_items_loop_first_over_stock [OF that(3,4)])
    with that(1) show ?thesis by (simp add: SaleCreateView_create_def is_valid_def)
  qed
  from first second show ?thesis by blast
qed

theorem over_stock_sale_rejected_witness:
  "list_ex (over_stock shop) (attrs_items six_units)
   \<and> fields_valid six_units
   \<and> attrs_items six_units = [] @ hd (attrs_items six_units) # []
   \<and> list_all (in_stock shop) [] \<and> over_stock shop (hd (attrs_items six_units))
   \<and> SaleCreateView_create shop 7 six_units = (Inl InsufficientStock, shop)"
proof -
  have h1: "list_ex (over_stock shop) (attrs_items six_units)" by code_simp
  have h2: "fields_valid six_units" by code_simp
  have h3: "attrs_items six_units = [] @ hd (attrs_items six_units) # []"
    by (simp add: six_units_def)
  have h4: "list_all (in_stock shop) []" by simp
  have h5: "over_stock shop (hd (attrs_items six_units))" by code_simp
  from over_stock_sale_rejected [OF h1, of 7 "[]" "hd (attrs_items six_units)" "[]"] h2 h3 h4 h5
  have "SaleCreateView_create shop 7 six_units = (Inl InsufficientStock, shop)" by blast
  with h1 h2 h3 h4 h5 show ?thesis by blast
qed

text \<open>
  Claim C2 as stated promises InsufficientStock for every such request. In the shop
  with product 1 (stock 5) only, a request for one unit of the unknown product 2 followed
  by six units of product 1 fails on the lookup of product 2, with NotFound.
\<close>

theorem over_stock_after_unknown_product_counterexample:
  "list_ex (over_stock shop) (attrs_items unknown_then_over)
   \<and> fst (SaleCreateView_create shop 7 unknown_then_over) = Inl NotFound
   \<and> fst (SaleCreateView_create shop 7 unknown_then_over) \<noteq> Inl InsufficientStock"
  by code_simp

section \<open>Stock movements\<close>


lemma new_movements_same: "new_movements st st = []"
  by (simp add: new_movements_def)




lemma alert_get_or_create_movements:
  "alert_get_or_create product_id level current st = Inr st' \<Longrightarrow>
   stock_movements st' = stock_movements st"
  by (auto simp: alert_get_or_create_def split: list.splits)

lemma adjustment_movements:
  "\<exists>ms. stock_movements (snd (StockAdjustmentView_post st user data)) = stock_movements st @ ms
        \<and> list_all movement_consistent ms
        \<and> list_all (\<lambda>m. (adj_adjustment_type data = Add \<longrightarrow> 0 \<le> mv_quantity m)
                       \<and> (adj_adjustment_type data = Remove \<longrightarrow> mv_quantity m \<le> 0)) ms"
proof (cases "StockAdjustmentSerializer_is_valid st data")
  case (Inl e)
  then show ?thesis by (simp add: StockAdjustmentView_post_def)
next
  case (Inr product)
  then have q: "0 \<le> adj_quantity data"
    by (simp add: StockAdjustmentSerializer_is_valid_def split: if_splits)
  show ?thesis
    using q
    by (cases "adj_adjustment_type data")
      (auto simp: StockAdjustmentView_post_def Inr atomic_def Let_def movement_consistent_def
        dest!: alert_get_or_create_movements split: sum.splits)
qed












text \<open>
  Claim C3 as stated has the delta of an addition positive. The serializer admits the
  quantity 0 (\<^verbatim>\<open>min_value=0\<close>): adding 0 to product 1 of the example shop writes an
  adjustment movement whose quantity is 0.
\<close>

theorem zero_adjustment_counterexample:
  "adj_adjustment_type add_zero = Add
   \<and> map mv_movement_type
       (new_movements shop (snd (StockAdjustmentView_post shop 7 add_zero)))
     = [AdjustmentMovement]
   \<and> map mv_quantity (new_movements shop (snd (StockAdjustmentView_post shop 7 add_zero))) = [0]"
  by code_simp

section \<open>Receiving a purchase order\<close>

lemma ordered_in_Cons:
  "ordered_in (x # xs) product_id =
     (if poi_product (snd x) = product_id then poi_quantity_ordered (snd x) else 0)
     + ordered_in xs product_id"
  by (simp add: ordered_in_def)

lemma add_stock_0: "add_stock 0 product = product"
  by (simp add: add_stock_def)

lemma map_option_add_stock_0: "map_option (add_stock 0) r = r"
  by (cases r) (simp_all add: add_stock_0)

lemma add_stock_add_stock: "add_stock n (add_stock m product) = add_stock (m + n) product"
  by (simp add: add_stock_def)

lemma resolve_for_insert:
  "resolve_for ids (resolve_for {k} a) = resolve_for (insert k ids) a"
  by (simp add: resolve_for_def)

lemma resolve_alerts_eq: "resolve_alerts k alerts = map (resolve_for {k}) alerts"
  by (simp add: resolve_alerts_def resolve_for_def)

lemma receive_item_effect:
  assumes "receive_item po user (i, item) st = Inr st'"
  shows "products st' = (\<lambda>k. map_option
            (add_stock (if poi_product item = k then poi_quantity_ordered item else 0))
            (products st k))"
    and "stock_alerts st' = map (resolve_for {poi_product item}) (stock_alerts st)"
    and "purchase_order_items st' = (purchase_order_items st)[i := received_row item]"
    and "purchase_orders st' = purchase_orders st"
    and "sales st' = sales st" and "sale_items st' = sale_items st"
    and "payments st' = payments st" and "suppliers st' = suppliers st"
  using assms
  by (auto simp: receive_item_def Let_def received_row_def resolve_alerts_eq
      map_option_add_stock_0 fun_eq_iff add_stock_def split: option.splits)

lemma receive_items_loop_effect:
  "receive_items_loop po user xs st = Inr st' \<Longrightarrow>
     products st' = (\<lambda>k. map_option (add_stock (ordered_in xs k)) (products st k))
     \<and> stock_alerts st' = map (resolve_for (products_of xs)) (stock_alerts st)
     \<and> purchase_order_items st'
         = fold (\<lambda>x rows. rows[fst x := received_row (snd x)]) xs (purchase_order_items st)
     \<and> purchase_orders st' = purchase_orders st
     \<and> sales st' = sales st \<and> sale_items st' = sale_items st
     \<and> payments st' = payments st \<and> suppliers st' = suppliers st"
proof (induction xs arbitrary: st)
  case Nil
  then show ?case
    by (simp add: ordered_in_def products_of_def resolve_for_def map_option_add_stock_0)
next
  case (Cons x rest)
  obtain i item where x: "x = (i, item)" by (cases x)
  from Cons.prems obtain st1 where
    s1: "receive_item po user (i, item) st = Inr st1"
    and s2: "receive_items_loop po user rest st1 = Inr st'"
    by (auto simp: x split: sum.splits)
  note e1 = receive_item_effect [OF s1]
  from Cons.IH [OF s2] have
    p: "products st' = (\<lambda>k. map_option (add_stock (ordered_in rest k)) (products st1 k))"
    and a: "stock_alerts st' = map (resolve_for (products_of rest)) (stock_alerts st1)"
    and r: "purchase_order_items st'
         = fold (\<lambda>x rows. rows[fst x := received_row (snd x)]) rest (purchase_order_items st1)"
    and others: "purchase_orders st' = purchase_orders st1" "sales st' = sales st1"
      "sale_items st' = sale_items st1" "payments st' = payments st1"
      "suppliers st' = suppliers st1"
    by blast+
  have "products st' = (\<lambda>k. map_option (add_stock (ordered_in (x # rest) k)) (products st k))"
    unfolding p e1(1)
    by (simp add: x ordered_in_Cons option.map_comp o_def add_stock_add_stock cong: if_cong)
  moreover have "stock_alerts st' = map (resolve_for (products_of (x # rest))) (stock_alerts st)"
    unfolding a e1(2) by (simp add: x products_of_def resolve_for_insert)
  moreover have "purchase_order_items st'
      = fold (\<lambda>x rows. rows[fst x := received_row (snd x)]) (x # rest) (purchase_order_items st)"
    unfolding r e1(3) by (simp add: x)
  ultimately show ?case
    using others e1(4-) by simp
qed

lemma receive_items_loop_returns:
  "products_of xs \<subseteq> dom (products st) \<Longrightarrow> \<exists>st'. receive_items_loop po user xs st = Inr st'"
proof (induction xs arbitrary: st)
  case Nil
  show ?case by simp
next
  case (Cons x rest)
  obtain i item where x: "x = (i, item)" by (cases x)
  from Cons.prems obtain product where "products st (poi_product item) = Some product"
    by (auto simp: products_of_def x)
  then obtain st1 where s1: "receive_item po user (i, item) st = Inr st1"
    by (simp add: receive_item_def Let_def)
  have "dom (products st1) = dom (products st)"
    by (auto simp: receive_item_effect(1) [OF s1] dom_def)
  with Cons.prems have "products_of rest \<subseteq> dom (products st1)"
    by (simp add: products_of_def)
  from Cons.IH [OF this] show ?case by (simp add: x s1)
qed

lemma fold_update_nth:
  "distinct (map fst xs) \<Longrightarrow> (i, item) \<in> set xs \<Longrightarrow> i < length rows \<Longrightarrow>
   fold (\<lambda>x rows. rows[fst x := f (snd x)]) xs rows ! i = f item"
proof (induction xs arbitrary: rows)
  case Nil
  then show ?case by simp
next
  case (Cons x xs)
  show ?case
  proof (cases "(i, item) \<in> set xs")
    case True
    with Cons show ?thesis by simp
  next
    case False
    with Cons.prems have x: "x = (i, item)" by simp
    from Cons.prems(1) have "i \<notin> fst ` set xs" by (simp add: x)
    then have "fold (\<lambda>x rows. rows[fst x := f (snd x)]) xs rows' ! i = rows' ! i" for rows'
      by (induction xs arbitrary: rows') auto
    with Cons.prems(3) show ?thesis by (simp add: x)
  qed
qed

lemma fold_update_length:
  "length (fold (\<lambda>x rows. rows[fst x := f (snd x)]) xs rows) = length rows"
  by (induction xs arbitrary: rows) auto

lemma fold_update_other:
  "j \<notin> fst ` set xs \<Longrightarrow> fold (\<lambda>x rows. rows[fst x := f (snd x)]) xs rows ! j = rows ! j"
  by (induction xs arbitrary: rows) auto

lemma po_items_facts:
  "distinct (map fst (po_items st pk))"
  "(i, item) \<in> set (po_items st pk) \<Longrightarrow>
     i < length (purchase_order_items st) \<and> purchase_order_items st ! i = item
     \<and> poi_purchase_order item = pk"
  by (auto simp: po_items_def distinct_map_filter in_set_enumerate_eq)

lemma received_rows:
  "fold (\<lambda>x rows. rows[fst x := received_row (snd x)]) (po_items st pk) (purchase_order_items st)
   = map (\<lambda>item. if poi_purchase_order item = pk then received_row item else item)
       (purchase_order_items st)"
proof (rule nth_equalityI)
  show "length (fold (\<lambda>x rows. rows[fst x := received_row (snd x)]) (po_items st pk)
          (purchase_order_items st))
      = length (map (\<lambda>item. if poi_purchase_order item = pk then received_row item else item)
          (purchase_order_items st))"
    by (simp add: fold_update_length)
next
  fix j
  assume "j < length (fold (\<lambda>x rows. rows[fst x := received_row (snd x)]) (po_items st pk)
          (purchase_order_items st))"
  then have j: "j < length (purchase_order_items st)"
    by (simp add: fold_update_length)
  let ?row = "purchase_order_items st ! j"
  show "fold (\<lambda>x rows. rows[fst x := received_row (snd x)]) (po_items st pk)
          (purchase_order_items st) ! j
      = map (\<lambda>item. if poi_purchase_order item = pk then received_row item else item)
          (purchase_order_items st) ! j"
  proof (cases "poi_purchase_order ?row = pk")
    case True
    with j have "(j, ?row) \<in> set (po_items st pk)"
      by (simp add: po_items_def in_set_enumerate_eq)
    from fold_update_nth [OF po_items_facts(1) this j] True j show ?thesis by simp
  next
    case False
    then have "j \<notin> fst ` set (po_items st pk)"
      by (auto simp: po_items_def in_set_enumerate_eq)
    from fold_update_other [OF this] False j show ?thesis by simp
  qed
qed

lemma open_alerts_resolved:
  assumes "stock_alerts st' = map (resolve_for ids) (stock_alerts st)" and "k \<in> ids"
  shows "open_alerts st' k = []"
  using assms by (auto simp: open_alerts_def filter_empty_conv resolve_for_def)

lemma get_by_pk_update:
  "get_by_pk rows pk = Some row \<Longrightarrow> get_by_pk (rows[pk - 1 := row']) pk = Some row'"
  by (auto simp: get_by_pk_def split: if_splits)

text \<open>
  Claim C4. Receiving a purchase order whose status is received already fails with
  Conflict and leaves the store as it was. Receiving any other purchase order, in a
  store whose order items name existing products (the foreign key of the item table),
  succeeds: every product's stock grows by the sum of quantity_ordered over the items of
  this order that name the product (by nothing when no item names it); every alert of a
  product named by an item is resolved afterwards, the other alerts are untouched; each
  item of the order has quantity_received equal to its quantity_ordered; and the order's
  status is received.
\<close>

theorem receive_purchase_order_effect:
  assumes "get_by_pk (purchase_orders st) pk = Some po"
  shows "(po_status po = POReceived \<longrightarrow>
            receive_purchase_order st user pk = (Inl Conflict, st))
     \<and> (po_status po \<noteq> POReceived \<and> items_resolve st (po_items st pk) \<longrightarrow>
          (\<exists>st'. receive_purchase_order st user pk = (Inr (), st')
             \<and> (\<forall>k product. products st k = Some product \<longrightarrow>
                    products st' k = Some (add_stock (ordered_in (po_items st pk) k) product))
             \<and> stock_alerts st'
                 = map (resolve_for (products_of (po_items st pk))) (stock_alerts st)
             \<and> (\<forall>k\<in>products_of (po_items st pk). open_alerts st' k = [])
             \<and> purchase_order_items st'
                 = map (\<lambda>item. if poi_purchase_order item = pk then received_row item else item)
                     (purchase_order_items st)
             \<and> (\<forall>x\<in>set (po_items st' pk).
                    poi_quantity_received (snd x) = poi_quantity_ordered (snd x))
             \<and> get_by_pk (purchase_orders st') pk = Some (po\<lparr>po_status := POReceived\<rparr>)))"
proof (intro conjI impI)
  assume "po_status po = POReceived"
  with assms show "receive_purchase_order st user pk = (Inl Conflict, st)"
    by (simp add: receive_purchase_order_def)
next
  assume a: "po_status po \<noteq> POReceived \<and> items_resolve st (po_items st pk)"
  then have "products_of (po_items st pk) \<subseteq> dom (products st)"
    by (auto simp: items_resolve_def products_of_def list_all_iff)
  then obtain st1 where loop: "receive_items_loop po user (po_items st pk) st = Inr st1"
    using receive_items_loop_returns by blast
  define st' where
    "st' = st1\<lparr>purchase_orders := (purchase_orders st1)[pk - 1 := po\<lparr>po_status := POReceived\<rparr>]\<rparr>"
  from receive_items_loop_effect [OF loop] have
    p: "products st1 = (\<lambda>k. map_option (add_stock (ordered_in (po_items st pk) k)) (products st k))"
    and al: "stock_alerts st1 = map (resolve_for (products_of (po_items st pk))) (stock_alerts st)"
    and r: "purchase_order_items st1
         = fold (\<lambda>x rows. rows[fst x := received_row (snd x)]) (po_items st pk)
             (purchase_order_items st)"
    and pos: "purchase_orders st1 = purchase_orders st"
    by blast+
  have run: "receive_purchase_order st user pk = (Inr (), st')"
    using assms a by (simp add: receive_purchase_order_def atomic_def loop st'_def)
  have stock: "\<forall>k product. products st k = Some product \<longrightarrow>
      products st' k = Some (add_stock (ordered_in (po_items st pk) k) product)"
    by (simp add: p st'_def)
  have alerts: "stock_alerts st'
      = map (resolve_for (products_of (po_items st pk))) (stock_alerts st)"
    by (simp add: al st'_def)
  have resolved: "\<forall>k\<in>products_of (po_items st pk). open_alerts st' k = []"
    using open_alerts_resolved [OF alerts] by blast
  have rows: "purchase_order_items st'
      = map (\<lambda>item. if poi_purchase_order item = pk then received_row item else item)
          (purchase_order_items st)"
    by (simp add: r received_rows st'_def)
  have received: "\<forall>x\<in>set (po_items st' pk).
      poi_quantity_received (snd x) = poi_quantity_ordered (snd x)"
  proof
    fix x
    assume mem: "x \<in> set (po_items st' pk)"
    obtain i item where x: "x = (i, item)" by (cases x)
    from mem have "(i, item) \<in> set (po_items st' pk)" by (simp only: x)
    from po_items_facts(2) [OF this] have
      i: "i < length (purchase_order_items st')" "purchase_order_items st' ! i = item"
        "poi_purchase_order item = pk"
      by blast+
    let ?old = "purchase_order_items st ! i"
    from i(1) have len: "i < length (purchase_order_items st)" by (simp add: rows)
    from i(2) len have item: "item = (if poi_purchase_order ?old = pk then received_row ?old else ?old)"
      by (simp add: rows)
    have "item = received_row ?old"
    proof (cases "poi_purchase_order ?old = pk")
      case True
      with item show ?thesis by simp
    next
      case False
      with item have "item = ?old" by simp
      with i(3) False show ?thesis by simp
    qed
    then show "poi_quantity_received (snd x) = poi_quantity_ordered (snd x)"
      by (simp add: x received_row_def)
  qed
  have status: "get_by_pk (purchase_orders st') pk = Some (po\<lparr>po_status := POReceived\<rparr>)"
    using get_by_pk_update [OF assms] by (simp add: pos st'_def)
  from run stock alerts resolved rows received status
  show "\<exists>st'. receive_purchase_order st user pk = (Inr (), st')
             \<and> (\<forall>k product. products st k = Some product \<longrightarrow>
                    products st' k = Some (add_stock (ordered_in (po_items st pk) k) product))
             \<and> stock_alerts st'
                 = map (resolve_for (products_of (po_items st pk))) (stock_alerts st)
             \<and> (\<forall>k\<in>products_of (po_items st pk). open_alerts st' k = [])
             \<and> purchase_order_items st'
                 = map (\<lambda>item. if poi_purchase_order item = pk then received_row item else item)
                     (purchase_order_items st)
             \<and> (\<forall>x\<in>set (po_items st' pk).
                    poi_quantity_received (snd x) = poi_quantity_ordered (snd x))
             \<and> get_by_pk (purchase_orders st') pk = Some (po\<lparr>po_status := POReceived\<rparr>)"
    by blast
qed

theorem receive_purchase_order_effect_witness:
  "get_by_pk (purchase_orders shop_with_order) 1 = Some (hd (purchase_orders shop_with_order))
   \<and> po_status (hd (purchase_orders shop_with_order)) \<noteq> POReceived
   \<and> items_resolve shop_with_order (po_items shop_with_order 1)
   \<and> (\<exists>st'. receive_purchase_order shop_with_order 7 1 = (Inr (), st')
        \<and> map_option stock_quantity (products st' 1) = Some 15
        \<and> open_alerts st' 1 = []
        \<and> map_option po_status (get_by_pk (purchase_orders st') 1) = Some POReceived)
   \<and> open_alerts shop_with_order 1 \<noteq> []
   \<and> get_by_pk (purchase_orders shop_after_receipt) 1
       = Some (hd (purchase_orders shop_after_receipt))
   \<and> po_status (hd (purchase_orders shop_after_receipt)) = POReceived
   \<and> receive_purchase_order shop_after_receipt 7 1 = (Inl Conflict, shop_after_receipt)"
proof -
  have h1: "get_by_pk (purchase_orders shop_with_order) 1
      = Some (hd (purchase_orders shop_with_order))" by code_simp
  have h2: "po_status (hd (purchase_orders shop_with_order)) \<noteq> POReceived" by code_simp
  have h3: "items_resolve shop_with_order (po_items shop_with_order 1)" by code_simp
  have p: "products shop_with_order 1
      = Some \<lparr>price = 100, tax_rate = 16, stock_quantity = 5, min_stock_level = 10\<rparr>"
    by code_simp
  have o: "ordered_in (po_items shop_with_order 1) 1 = 10" by code_simp
  have k: "1 \<in> products_of (po_items shop_with_order 1)" by code_simp
  have a: "open_alerts shop_with_order 1 \<noteq> []" by code_simp
  from receive_purchase_order_effect [OF h1, of 7] h2 h3 obtain st' where
    r: "receive_purchase_order shop_with_order 7 1 = (Inr (), st')"
    and s: "\<forall>k product. products shop_with_order k = Some product \<longrightarrow>
          products st' k = Some (add_stock (ordered_in (po_items shop_with_order 1) k) product)"
    and al: "\<forall>k\<in>products_of (po_items shop_with_order 1). open_alerts st' k = []"
    and st: "get_by_pk (purchase_orders st') 1
          = Some ((hd (purchase_orders shop_with_order))\<lparr>po_status := POReceived\<rparr>)"
    by blast
  from s p o have "map_option stock_quantity (products st' 1) = Some 15"
    by (simp add: add_stock_def)
  moreover from al k have "open_alerts st' 1 = []" by blast
  moreover from st have "map_option po_status (get_by_pk (purchase_orders st') 1) = Some POReceived"
    by simp
  ultimately have first: "\<exists>st'. receive_purchase_order shop_with_order 7 1 = (Inr (), st')
        \<and> map_option stock_quantity (products st' 1) = Some 15
        \<and> open_alerts st' 1 = []
        \<and> map_option po_status (get_by_pk (purchase_orders st') 1) = Some POReceived"
    using r by blast
  have g1: "get_by_pk (purchase_orders shop_after_receipt) 1
      = Some (hd (purchase_orders shop_after_receipt))" by code_simp
  have g2: "po_status (hd (purchase_orders shop_after_receipt)) = POReceived" by code_simp
  from receive_purchase_order_effect [OF g1, of 7] g2
  have second: "receive_purchase_order shop_after_receipt 7 1 = (Inl Conflict, shop_after_receipt)"
    by blast
  from h1 h2 h3 first a g1 g2 second show ?thesis by blast
qed

section \<open>Purchase order status\<close>

lemma get_by_pk_update_other:
  "pk \<noteq> pk' \<Longrightarrow> 1 \<le> pk' \<Longrightarrow> get_by_pk (rows[pk' - 1 := row']) pk = get_by_pk rows pk"
  by (auto simp: get_by_pk_def)

lemma get_by_pk_valid:
  "get_by_pk rows pk = Some row \<Longrightarrow> 1 \<le> pk \<and> pk \<le> length rows"
  by (simp add: get_by_pk_def split: if_splits)

lemma receive_purchase_orders:
  "purchase_orders (snd (receive_purchase_order st user pk')) = purchase_orders st
   \<or> (\<exists>po'. get_by_pk (purchase_orders st) pk' = Some po' \<and> po_status po' \<noteq> POReceived
        \<and> purchase_orders (snd (receive_purchase_order st user pk'))
            = (purchase_orders st)[pk' - 1 := po'\<lparr>po_status := POReceived\<rparr>])"
proof (cases "get_by_pk (purchase_orders st) pk'")
  case None
  then show ?thesis by (simp add: receive_purchase_order_def)
next
  case (Some po')
  show ?thesis
  proof (cases "po_status po' = POReceived")
    case True
    with Some show ?thesis by (simp add: receive_purchase_order_def)
  next
    case False
    show ?thesis
    proof (cases "receive_items_loop po' user (po_items st pk') st")
      case (Inl e)
      with Some False show ?thesis by (simp add: receive_purchase_order_def atomic_def)
    next
      case (Inr st1)
      from receive_items_loop_effect [OF Inr] have "purchase_orders st1 = purchase_orders st"
        by blast
      with Some False Inr show ?thesis
        by (simp add: receive_purchase_order_def atomic_def)
    qed
  qed
qed

lemma cancel_purchase_orders:
  "purchase_orders (snd (cancel_purchase_order st pk')) = purchase_orders st
   \<or> (\<exists>po'. get_by_pk (purchase_orders st) pk' = Some po' \<and> po_status po' \<noteq> POReceived
        \<and> purchase_orders (snd (cancel_purchase_order st pk'))
            = (purchase_orders st)[pk' - 1 := po'\<lparr>po_status := POCancelled\<rparr>])"
  by (auto simp: cancel_purchase_order_def split: option.splits)

lemma po_status_at_update:
  assumes "get_by_pk (purchase_orders st) pk' = Some po'"
    and "purchase_orders st' = (purchase_orders st)[pk' - 1 := po'\<lparr>po_status := s\<rparr>]"
  shows "po_status_at st' pk = (if pk = pk' then Some s else po_status_at st pk)"
proof (cases "pk = pk'")
  case True
  with get_by_pk_update [OF assms(1)] show ?thesis
    by (simp add: po_status_at_def assms(2))
next
  case False
  from get_by_pk_valid [OF assms(1)] have "1 \<le> pk'" by simp
  have "get_by_pk ((purchase_orders st)[pk' - 1 := po'\<lparr>po_status := s\<rparr>]) pk
      = get_by_pk (purchase_orders st) pk"
    by (rule get_by_pk_update_other [OF False \<open>1 \<le> pk'\<close>])
  with False show ?thesis
    by (simp only: po_status_at_def assms(2) if_False)
qed

lemma po_status_at_same:
  "purchase_orders st' = purchase_orders st \<Longrightarrow> po_status_at st' pk = po_status_at st pk"
  by (simp add: po_status_at_def)

lemma received_stays_received:
  assumes "po_status_at st pk = Some POReceived"
  shows "po_status_at (snd (receive_purchase_order st user pk')) pk = Some POReceived"
    and "po_status_at (snd (cancel_purchase_order st pk')) pk = Some POReceived"
proof -
  from receive_purchase_orders [of st user pk']
  show "po_status_at (snd (receive_purchase_order st user pk')) pk = Some POReceived"
  proof (elim disjE exE conjE)
    assume "purchase_orders (snd (receive_purchase_order st user pk')) = purchase_orders st"
    from po_status_at_same [OF this] assms show ?thesis by simp
  next
    fix po'
    assume "get_by_pk (purchase_orders st) pk' = Some po'"
      "purchase_orders (snd (receive_purchase_order st user pk'))
         = (purchase_orders st)[pk' - 1 := po'\<lparr>po_status := POReceived\<rparr>]"
    from po_status_at_update [OF this] assms show ?thesis by simp
  qed
  from cancel_purchase_orders [of st pk']
  show "po_status_at (snd (cancel_purchase_order st pk')) pk = Some POReceived"
  proof (elim disjE exE conjE)
    assume "purchase_orders (snd (cancel_purchase_order st pk')) = purchase_orders st"
    from po_status_at_same [OF this] assms show ?thesis by simp
  next
    fix po'
    assume g: "get_by_pk (purchase_orders st) pk' = Some po'" and n: "po_status po' \<noteq> POReceived"
      and u: "purchase_orders (snd (cancel_purchase_order st pk'))
         = (purchase_orders st)[pk' - 1 := po'\<lparr>po_status := POCancelled\<rparr>]"
    from g n assms have "pk \<noteq> pk'" by (auto simp: po_status_at_def)
    with po_status_at_update [OF g u] assms show ?thesis by simp
  qed
qed

lemma cancelled_stays_terminal:
  assumes "po_status_at st pk = Some POCancelled"
  shows "po_status_at (snd (receive_purchase_order st user pk')) pk
           \<in> {Some POCancelled, Some POReceived}"
    and "po_status_at (snd (cancel_purchase_order st pk')) pk = Some POCancelled"
proof -
  from receive_purchase_orders [of st user pk']
  show "po_status_at (snd (receive_purchase_order st user pk')) pk
           \<in> {Some POCancelled, Some POReceived}"
  proof (elim disjE exE conjE)
    assume "purchase_orders (snd (receive_purchase_order st user pk')) = purchase_orders st"
    from po_status_at_same [OF this] assms show ?thesis by simp
  next
    fix po'
    assume "get_by_pk (purchase_orders st) pk' = Some po'"
      "purchase_orders (snd (receive_purchase_order st user pk'))
         = (purchase_orders st)[pk' - 1 := po'\<lparr>po_status := POReceived\<rparr>]"
    from po_status_at_update [OF this] assms show ?thesis by simp
  qed
  from cancel_purchase_orders [of st pk']
  show "po_status_at (snd (cancel_purchase_order st pk')) pk = Some POCancelled"
  proof (elim disjE exE conjE)
    assume "purchase_orders (snd (cancel_purchase_order st pk')) = purchase_orders st"
    from po_status_at_same [OF this] assms show ?thesis by simp
  next
    fix po'
    assume "get_by_pk (purchase_orders st) pk' = Some po'"
      "purchase_orders (snd (cancel_purchase_order st pk'))
         = (purchase_orders st)[pk' - 1 := po'\<lparr>po_status := POCancelled\<rparr>]"
    from po_status_at_update [OF this] assms show ?thesis by simp
  qed
qed

text \<open>
  Claim C5, as amended. A received purchase order stays received under every later
  receive or cancel call, whichever order the call names; the calls that name it fail
  with Conflict and leave the store as it was. A cancelled purchase order stays
  cancelled under every cancel call, and after a receive call it is cancelled or
  received: no call takes an order that is received or cancelled back to draft or
  pending.
\<close>

theorem po_status_one_directional:
  "(po_status_at st pk = Some POReceived \<longrightarrow>
      po_status_at (snd (receive_purchase_order st user pk')) pk = Some POReceived
      \<and> po_status_at (snd (cancel_purchase_order st pk')) pk = Some POReceived
      \<and> receive_purchase_order st user pk = (Inl Conflict, st)
      \<and> cancel_purchase_order st pk = (Inl Conflict, st))
   \<and> (po_status_at st pk = Some POCancelled \<longrightarrow>
      po_status_at (snd (cancel_purchase_order st pk')) pk = Some POCancelled
      \<and> po_status_at (snd (receive_purchase_order st user pk')) pk
          \<in> {Some POCancelled, Some POReceived})"
proof (intro conjI impI)
  assume r: "po_status_at st pk = Some POReceived"
  from received_stays_received [OF r]
  show "po_status_at (snd (receive_purchase_order st user pk')) pk = Some POReceived"
    and "po_status_at (snd (cancel_purchase_order st pk')) pk = Some POReceived"
    by blast+
  from r obtain po where "get_by_pk (purchase_orders st) pk = Some po" "po_status po = POReceived"
    by (auto simp: po_status_at_def)
  then show "receive_purchase_order st user pk = (Inl Conflict, st)"
    and "cancel_purchase_order st pk = (Inl Conflict, st)"
    by (simp_all add: receive_purchase_order_def cancel_purchase_order_def)
next
  assume c: "po_status_at st pk = Some POCancelled"
  from cancelled_stays_terminal [OF c]
  show "po_status_at (snd (cancel_purchase_order st pk')) pk = Some POCancelled"
    and "po_status_at (snd (receive_purchase_order st user pk')) pk
          \<in> {Some POCancelled, Some POReceived}"
    by blast+
qed

theorem po_status_one_directional_witness:
  "po_status_at shop_after_receipt 1 = Some POReceived
   \<and> receive_purchase_order shop_after_receipt 7 1 = (Inl Conflict, shop_after_receipt)
   \<and> cancel_purchase_order shop_after_receipt 1 = (Inl Conflict, shop_after_receipt)
   \<and> po_status_at (snd (cancel_purchase_order shop_after_receipt 1)) 1 = Some POReceived
   \<and> po_status_at shop_with_cancelled_order 1 = Some POCancelled
   \<and> po_status_at (snd (cancel_purchase_order shop_with_cancelled_order 1)) 1 = Some POCancelled
   \<and> po_status_at (snd (receive_purchase_order shop_with_cancelled_order 7 1)) 1
       \<in> {Some POCancelled, Some POReceived}"
proof -
  have h1: "po_status_at shop_after_receipt 1 = Some POReceived" by code_simp
  have h2: "po_status_at shop_with_cancelled_order 1 = Some POCancelled" by code_simp
  from po_status_one_directional [of shop_after_receipt 1 7 1] h1
    po_status_one_directional [of shop_with_cancelled_order 1 7 1] h2
  show ?thesis by blast
qed

text \<open>
  Claim C5 as stated says that a cancelled purchase order can never become received.
  \<^verbatim>\<open>receive_purchase_order\<close> refuses the status received only: on the order of the
  example shop, cancelled first, it succeeds and the order is received.
\<close>

theorem cancelled_po_received_counterexample:
  "po_status_at shop_with_cancelled_order 1 = Some POCancelled
   \<and> fst (receive_purchase_order shop_with_cancelled_order 7 1) = Inr ()
   \<and> po_status_at (snd (receive_purchase_order shop_with_cancelled_order 7 1)) 1
       = Some POReceived"
  by code_simp

section \<open>Sale cancellation\<close>

lemma sold_in_Cons:
  "sold_in (item # items) product_id =
     (if si_product item = product_id then si_quantity item else 0) + sold_in items product_id"
  by (simp add: sold_in_def)

lemma restore_item_effect:
  assumes "restore_item item st = Inr st'"
  shows "st' = st\<lparr>products := (\<lambda>k. map_option
            (add_stock (if si_product item = k then si_quantity item else 0)) (products st k))\<rparr>"
  using assms
  by (auto simp: restore_item_def map_option_add_stock_0 fun_eq_iff add_stock_def
      split: option.splits)

lemma restore_items_loop_effect:
  "restore_items_loop items st = Inr st' \<Longrightarrow>
   st' = st\<lparr>products := (\<lambda>k. map_option (add_stock (sold_in items k)) (products st k))\<rparr>"
proof (induction items arbitrary: st)
  case Nil
  then show ?case by (simp add: sold_in_def map_option_add_stock_0)
next
  case (Cons item rest)
  from Cons.prems obtain st1 where
    s1: "restore_item item st = Inr st1" and s2: "restore_items_loop rest st1 = Inr st'"
    by (auto split: sum.splits)
  show ?case
    unfolding Cons.IH [OF s2] restore_item_effect [OF s1]
    by (simp add: sold_in_Cons option.map_comp o_def add_stock_add_stock cong: if_cong)
qed

lemma restore_items_loop_returns:
  "sale_items_resolve st items \<Longrightarrow> \<exists>st'. restore_items_loop items st = Inr st'"
proof (induction items arbitrary: st)
  case Nil
  show ?case by simp
next
  case (Cons item rest)
  from Cons.prems obtain product where p: "products st (si_product item) = Some product"
    by (auto simp: sale_items_resolve_def)
  then obtain st1 where s1: "restore_item item st = Inr st1"
    by (simp add: restore_item_def)
  from Cons.prems have "sale_items_resolve st1 rest"
    by (auto simp: restore_item_effect [OF s1] sale_items_resolve_def list_all_iff)
  from Cons.IH [OF this] show ?case by (simp add: s1)
qed

text \<open>
  Claim C7. Cancelling a sale whose status is cancelled already fails with Conflict and
  leaves the store, and so every stock, as it was. Cancelling any other sale, in a store
  whose sale items name existing products (the foreign key of the item table), succeeds:
  every product's stock grows by the sum of the quantities of the sale's items that name
  the product, the sale's status is cancelled, and nothing else in the store changes.
\<close>

theorem cancel_sale_effect:
  assumes "get_by_pk (sales st) pk = Some sale"
  shows "(sale_status sale = Cancelled \<longrightarrow> cancel_sale_view st pk = (Inl Conflict, st))
     \<and> (sale_status sale \<noteq> Cancelled \<and> sale_items_resolve st (items_of_sale st pk) \<longrightarrow>
          cancel_sale_view st pk =
            (Inr (),
             st\<lparr> products := (\<lambda>k. map_option (add_stock (sold_in (items_of_sale st pk) k))
                                  (products st k)),
                  sales := (sales st)[pk - 1 := sale\<lparr>sale_status := Cancelled\<rparr>] \<rparr>)
          \<and> (\<forall>k product. products st k = Some product \<longrightarrow>
                 products (snd (cancel_sale_view st pk)) k
                   = Some (product\<lparr>stock_quantity :=
                             stock_quantity product + sold_in (items_of_sale st pk) k\<rparr>))
          \<and> get_by_pk (sales (snd (cancel_sale_view st pk))) pk
               = Some (sale\<lparr>sale_status := Cancelled\<rparr>))"
proof (intro conjI impI)
  assume "sale_status sale = Cancelled"
  with assms show "cancel_sale_view st pk = (Inl Conflict, st)"
    by (simp add: cancel_sale_view_def)
next
  assume a: "sale_status sale \<noteq> Cancelled \<and> sale_items_resolve st (items_of_sale st pk)"
  then obtain st1 where loop: "restore_items_loop (items_of_sale st pk) st = Inr st1"
    using restore_items_loop_returns by blast
  note st1 = restore_items_loop_effect [OF loop]
  show run: "cancel_sale_view st pk =
            (Inr (),
             st\<lparr> products := (\<lambda>k. map_option (add_stock (sold_in (items_of_sale st pk) k))
                                  (products st k)),
                  sales := (sales st)[pk - 1 := sale\<lparr>sale_status := Cancelled\<rparr>] \<rparr>)"
    using assms a loop
    by (simp add: cancel_sale_view_def atomic_def items_of_sale_def [symmetric] st1)
  show "\<forall>k product. products st k = Some product \<longrightarrow>
                 products (snd (cancel_sale_view st pk)) k
                   = Some (product\<lparr>stock_quantity :=
                             stock_quantity product + sold_in (items_of_sale st pk) k\<rparr>)"
    by (simp add: run add_stock_def)
  show "get_by_pk (sales (snd (cancel_sale_view st pk))) pk
               = Some (sale\<lparr>sale_status := Cancelled\<rparr>)"
    using get_by_pk_update [OF assms] by (simp add: run)
qed

theorem cancel_sale_effect_witness:
  "get_by_pk (sales shop_after_sale) 1 = Some (hd (sales shop_after_sale))
   \<and> sale_status (hd (sales shop_after_sale)) \<noteq> Cancelled
   \<and> sale_items_resolve shop_after_sale (items_of_sale shop_after_sale 1)
   \<and> map_option stock_quantity (products shop_after_sale 1) = Some 3
   \<and> fst (cancel_sale_view shop_after_sale 1) = Inr ()
   \<and> map_option stock_quantity (products (snd (cancel_sale_view shop_after_sale 1)) 1) = Some 5
   \<and> map_option sale_status (get_by_pk (sales (snd (cancel_sale_view shop_after_sale 1))) 1)
       = Some Cancelled
   \<and> get_by_pk (sales shop_after_cancel) 1 = Some (hd (sales shop_after_cancel))
   \<and> sale_status (hd (sales shop_after_cancel)) = Cancelled
   \<and> cancel_sale_view shop_after_cancel 1 = (Inl Conflict, shop_after_cancel)"
proof -
  have h1: "get_by_pk (sales shop_after_sale) 1 = Some (hd (sales shop_after_sale))"
    by code_simp
  have h2: "sale_status (hd (sales shop_after_sale)) \<noteq> Cancelled" by code_simp
  have h3: "sale_items_resolve shop_after_sale (items_of_sale shop_after_sale 1)" by code_simp
  have p: "products shop_after_sale 1
      = Some \<lparr>price = 100, tax_rate = 16, stock_quantity = 3, min_stock_level = 10\<rparr>"
    by code_simp
  have s: "sold_in (items_of_sale shop_after_sale 1) 1 = 2" by code_simp
  from cancel_sale_effect [OF h1] h2 h3 have
    c1: "cancel_sale_view shop_after_sale 1 =
            (Inr (),
             shop_after_sale\<lparr> products := (\<lambda>k. map_option
                   (add_stock (sold_in (items_of_sale shop_after_sale 1) k))
                                  (products shop_after_sale k)),
                  sales := (sales shop_after_sale)[1 - 1 :=
                     (hd (sales shop_after_sale))\<lparr>sale_status := Cancelled\<rparr>] \<rparr>)"
    and c2: "\<forall>k product. products shop_after_sale k = Some product \<longrightarrow>
                 products (snd (cancel_sale_view shop_after_sale 1)) k
                   = Some (product\<lparr>stock_quantity :=
                             stock_quantity product + sold_in (items_of_sale shop_after_sale 1) k\<rparr>)"
    and c3: "get_by_pk (sales (snd (cancel_sale_view shop_after_sale 1))) 1
               = Some ((hd (sales shop_after_sale))\<lparr>sale_status := Cancelled\<rparr>)"
    by blast+
  from c1 have r: "fst (cancel_sale_view shop_after_sale 1) = Inr ()" by simp
  from c2 p have "products (snd (cancel_sale_view shop_after_sale 1)) 1
      = Some (\<lparr>price = 100, tax_rate = 16, stock_quantity = 3, min_stock_level = 10\<rparr>
              \<lparr>stock_quantity := 3 + sold_in (items_of_sale shop_after_sale 1) 1\<rparr>)"
    by fastforce
  with s have
    "map_option stock_quantity (products (snd (cancel_sale_view shop_after_sale 1)) 1) = Some 5"
    by simp
  moreover from c3 have
    "map_option sale_status (get_by_pk (sales (snd (cancel_sale_view shop_after_sale 1))) 1)
       = Some Cancelled" by simp
  moreover have g1: "get_by_pk (sales shop_after_cancel) 1 = Some (hd (sales shop_after_cancel))"
    by code_simp
  moreover have g2: "sale_status (hd (sales shop_after_cancel)) = Cancelled" by code_simp
  moreover from cancel_sale_effect [OF g1] g2
  have "cancel_sale_view shop_after_cancel 1 = (Inl Conflict, shop_after_cancel)" by blast
  moreover from p have "map_option stock_quantity (products shop_after_sale 1) = Some 3" by simp
  ultimately show ?thesis using h1 h2 h3 r by blast
qed

section \<open>Manual stock adjustment\<close>

lemma adjustment_split:
  "(case ty of Add \<Rightarrow> (p + q, q) | Remove \<Rightarrow> (p - q, - q) | SetTo \<Rightarrow> (q, q - p))
     = (adjusted_stock ty p q, adjustment_delta ty p q)"
  by (cases ty) (simp_all add: adjusted_stock_def adjustment_delta_def)

lemma alert_get_or_create_effect:
  assumes "length (open_alerts st k) \<le> 1"
  shows "\<exists>st'. alert_get_or_create k level current st = Inr st'
     \<and> st' = st\<lparr>stock_alerts :=
               (if open_alerts st k = []
                then stock_alerts st @ [\<lparr> alert_product = k, alert_level = level,
                       alert_current_stock = current, alert_is_resolved = False \<rparr>]
                else stock_alerts st)\<rparr>
     \<and> length (open_alerts st' k) = 1"
proof (cases "open_alerts st k")
  case Nil
  then show ?thesis
    using Nil by (simp add: alert_get_or_create_def) (simp add: open_alerts_def)
next
  case (Cons a rest)
  with assms have "rest = []" by simp
  with Cons show ?thesis
    by (simp add: alert_get_or_create_def)
qed

text \<open>
  Claim C8. A manual adjustment of an existing product with previous stock \<open>p\<close> and a
  requested quantity \<open>q\<close> that is not negative, in a store that holds at most one open
  alert for the product (the data model's invariant): a removal with \<open>p < q\<close> fails with
  InsufficientStock and leaves the store as it was; every other adjustment succeeds, the
  stock becomes \<open>p + q\<close>, \<open>p - q\<close> or \<open>q\<close> for add, remove and set, and one movement of
  type adjustment is written with the delta \<open>q\<close>, \<open>- q\<close> or \<open>q - p\<close>. When the new
  stock is at most min_stock_level exactly one open alert exists for the product
  afterwards, a new one only when none was open; otherwise the alerts are untouched.
\<close>

theorem stock_adjustment_effect:
  assumes "products st (adj_product_id data) = Some product"
    and "0 \<le> adj_quantity data"
    and "length (open_alerts st (adj_product_id data)) \<le> 1"
  shows "(adj_adjustment_type data = Remove \<and> stock_quantity product < adj_quantity data \<longrightarrow>
            StockAdjustmentView_post st user data = (Inl InsufficientStock, st))
     \<and> (\<not> (adj_adjustment_type data = Remove \<and> stock_quantity product < adj_quantity data) \<longrightarrow>
          (\<exists>m st'. StockAdjustmentView_post st user data = (Inr m, st')
             \<and> products st' = (products st)(adj_product_id data \<mapsto>
                  product\<lparr>stock_quantity := adjusted_stock (adj_adjustment_type data)
                                               (stock_quantity product) (adj_quantity data)\<rparr>)
             \<and> stock_movements st' = stock_movements st @ [m]
             \<and> mv_product m = adj_product_id data
             \<and> mv_movement_type m = AdjustmentMovement
             \<and> mv_quantity m = adjustment_delta (adj_adjustment_type data)
                                  (stock_quantity product) (adj_quantity data)
             \<and> mv_previous_quantity m = stock_quantity product
             \<and> mv_new_quantity m = adjusted_stock (adj_adjustment_type data)
                                      (stock_quantity product) (adj_quantity data)
             \<and> (adjusted_stock (adj_adjustment_type data) (stock_quantity product)
                   (adj_quantity data) \<le> min_stock_level product \<longrightarrow>
                  length (open_alerts st' (adj_product_id data)) = 1
                  \<and> stock_alerts st' =
                      (if open_alerts st (adj_product_id data) = []
                       then stock_alerts st @
                              [low_stock_alert (adj_product_id data) product
                                 (adjusted_stock (adj_adjustment_type data)
                                    (stock_quantity product) (adj_quantity data))]
                       else stock_alerts st))
             \<and> (min_stock_level product < adjusted_stock (adj_adjustment_type data)
                   (stock_quantity product) (adj_quantity data) \<longrightarrow>
                  stock_alerts st' = stock_alerts st)))"
proof (intro conjI impI)
  assume "adj_adjustment_type data = Remove \<and> stock_quantity product < adj_quantity data"
  with assms(1,2) show "StockAdjustmentView_post st user data = (Inl InsufficientStock, st)"
    by (simp add: StockAdjustmentView_post_def StockAdjustmentSerializer_is_valid_def)
next
  let ?k = "adj_product_id data"
  let ?new = "adjusted_stock (adj_adjustment_type data) (stock_quantity product) (adj_quantity data)"
  let ?delta = "adjustment_delta (adj_adjustment_type data) (stock_quantity product) (adj_quantity data)"
  let ?m = "\<lparr> mv_product = ?k, mv_movement_type = AdjustmentMovement,
              mv_quantity = ?delta, mv_previous_quantity = stock_quantity product,
              mv_new_quantity = ?new, mv_unit_cost = None, mv_supplier = None,
              mv_sale = None, mv_user = user \<rparr>"
  let ?st1 = "st\<lparr> products := (products st)(?k \<mapsto> product\<lparr>stock_quantity := ?new\<rparr>),
                  stock_movements := stock_movements st @ [?m] \<rparr>"
  assume "\<not> (adj_adjustment_type data = Remove \<and> stock_quantity product < adj_quantity data)"
  with assms(1,2) have valid: "StockAdjustmentSerializer_is_valid st data = Inr product"
    by (simp add: StockAdjustmentSerializer_is_valid_def)
  have open1: "open_alerts ?st1 ?k = open_alerts st ?k"
    by (simp add: open_alerts_def)
  show "\<exists>m st'. StockAdjustmentView_post st user data = (Inr m, st')
             \<and> products st' = (products st)(?k \<mapsto> product\<lparr>stock_quantity := ?new\<rparr>)
             \<and> stock_movements st' = stock_movements st @ [m]
             \<and> mv_product m = ?k
             \<and> mv_movement_type m = AdjustmentMovement
             \<and> mv_quantity m = ?delta
             \<and> mv_previous_quantity m = stock_quantity product
             \<and> mv_new_quantity m = ?new
             \<and> (?new \<le> min_stock_level product \<longrightarrow>
                  length (open_alerts st' ?k) = 1
                  \<and> stock_alerts st' =
                      (if open_alerts st ?k = []
                       then stock_alerts st @ [low_stock_alert ?k product ?new]
                       else stock_alerts st))
             \<and> (min_stock_level product < ?new \<longrightarrow> stock_alerts st' = stock_alerts st)"
  proof (cases "?new \<le> min_stock_level product")
    case True
    from assms(3) have "length (open_alerts ?st1 ?k) \<le> 1" by (simp only: open1)
    from alert_get_or_create_effect [OF this, of "min_stock_level product" ?new]
    obtain st2 where
      g: "alert_get_or_create ?k (min_stock_level product) ?new ?st1 = Inr st2"
      and st2: "st2 = ?st1\<lparr>stock_alerts :=
               (if open_alerts ?st1 ?k = []
                then stock_alerts ?st1 @ [\<lparr> alert_product = ?k,
                       alert_level = min_stock_level product,
                       alert_current_stock = ?new, alert_is_resolved = False \<rparr>]
                else stock_alerts ?st1)\<rparr>"
      and one: "length (open_alerts st2 ?k) = 1"
      by blast
    have run: "StockAdjustmentView_post st user data = (Inr ?m, st2)"
      using True
      by (simp add: StockAdjustmentView_post_def valid atomic_def Let_def adjustment_split g)
    have "stock_alerts st2 =
        (if open_alerts st ?k = []
         then stock_alerts st @ [low_stock_alert ?k product ?new] else stock_alerts st)"
      unfolding st2 open1 by (simp add: low_stock_alert_def)
    moreover have "products st2 = (products st)(?k \<mapsto> product\<lparr>stock_quantity := ?new\<rparr>)"
      "stock_movements st2 = stock_movements st @ [?m]"
      unfolding st2 by simp_all
    ultimately show ?thesis
      using run one True by simp
  next
    case False
    have run: "StockAdjustmentView_post st user data = (Inr ?m, ?st1)"
      using False
      by (simp add: StockAdjustmentView_post_def valid atomic_def Let_def adjustment_split)
    show ?thesis
      using False by (simp add: run)
  qed
qed

theorem stock_adjustment_effect_witness:
  "map_option stock_quantity (products shop_without_alert (adj_product_id remove_three)) = Some 5
   \<and> 0 \<le> adj_quantity remove_three
   \<and> length (open_alerts shop_without_alert (adj_product_id remove_three)) \<le> 1
   \<and> (\<exists>m st'. StockAdjustmentView_post shop_without_alert 7 remove_three = (Inr m, st')
        \<and> map_option stock_quantity (products st' 1) = Some 2
        \<and> mv_quantity m = - 3
        \<and> stock_alerts st' = [\<lparr> alert_product = 1, alert_level = 10,
                                   alert_current_stock = 2, alert_is_resolved = False \<rparr>])
   \<and> adj_adjustment_type remove_six = Remove
   \<and> StockAdjustmentView_post shop_without_alert 7 remove_six
       = (Inl InsufficientStock, shop_without_alert)"
proof -
  let ?p = "\<lparr>price = 100, tax_rate = 16, stock_quantity = 5, min_stock_level = 10\<rparr>"
  have p: "products shop_without_alert (adj_product_id remove_three) = Some ?p" by code_simp
  have q: "0 \<le> adj_quantity remove_three" by code_simp
  have a: "length (open_alerts shop_without_alert (adj_product_id remove_three)) \<le> 1"
    by code_simp
  have t: "adj_adjustment_type remove_three = Remove" "adj_quantity remove_three = 3"
    "adj_product_id remove_three = 1" by code_simp+
  have o: "open_alerts shop_without_alert 1 = []" "stock_alerts shop_without_alert = []"
    by code_simp+
  from stock_adjustment_effect [OF p q a, of 7] obtain m st' where
    r: "StockAdjustmentView_post shop_without_alert 7 remove_three = (Inr m, st')"
    and s: "products st' = (products shop_without_alert)(1 \<mapsto> ?p\<lparr>stock_quantity := 2\<rparr>)"
    and d: "mv_quantity m = - 3"
    and al: "stock_alerts st' = [low_stock_alert 1 ?p 2]"
    by (auto simp: t o adjusted_stock_def adjustment_delta_def)
  have first: "\<exists>m st'. StockAdjustmentView_post shop_without_alert 7 remove_three = (Inr m, st')
        \<and> map_option stock_quantity (products st' 1) = Some 2
        \<and> mv_quantity m = - 3
        \<and> stock_alerts st' = [\<lparr> alert_product = 1, alert_level = 10,
                                   alert_current_stock = 2, alert_is_resolved = False \<rparr>]"
    using r s d al by (simp add: low_stock_alert_def)
  have p6: "products shop_without_alert (adj_product_id remove_six) = Some ?p" by code_simp
  have q6: "0 \<le> adj_quantity remove_six" by code_simp
  have a6: "length (open_alerts shop_without_alert (adj_product_id remove_six)) \<le> 1"
    by code_simp
  have t6: "adj_adjustment_type remove_six = Remove" "adj_quantity remove_six = 6"
    by code_simp+
  from stock_adjustment_effect [OF p6 q6 a6, of 7] have second:
    "StockAdjustmentView_post shop_without_alert 7 remove_six
       = (Inl InsufficientStock, shop_without_alert)"
    by (simp add: t6)
  from p have "map_option stock_quantity (products shop_without_alert (adj_product_id remove_three))
      = Some 5" by simp
  with q a first t6(1) second show ?thesis by blast
qed

lemma alert_get_or_create_open:
  assumes "alert_get_or_create k level current st = Inr st'"
    and "length (open_alerts st j) \<le> 1"
  shows "length (open_alerts st' j) \<le> 1"
  using assms
  by (auto simp: alert_get_or_create_def open_alerts_def split: list.splits)

lemma resolve_for_open:
  "length (filter (\<lambda>a. alert_product a = j \<and> \<not> alert_is_resolved a) (map (resolve_for ids) alerts))
     \<le> length (filter (\<lambda>a. alert_product a = j \<and> \<not> alert_is_resolved a) alerts)"
  by (induction alerts) (auto simp: resolve_for_def)

section \<open>Stock alerts\<close>

lemma sale_alerts:
  "stock_alerts (snd (SaleCreateView_create st user attrs)) = stock_alerts st"
  by (auto simp: SaleCreateView_create_def create_def atomic_def Let_def
      dest!: create_items_loop_frame split: sum.splits)

lemma cancel_sale_alerts:
  "stock_alerts (snd (cancel_sale_view st pk)) = stock_alerts st"
  by (auto simp: cancel_sale_view_def atomic_def dest!: restore_items_loop_effect
      split: option.splits sum.splits)

lemma cancel_po_alerts:
  "stock_alerts (snd (cancel_purchase_order st pk)) = stock_alerts st"
  by (simp add: cancel_purchase_order_def split: option.splits)

lemma po_create_items_loop_alerts:
  "po_create_items_loop po_pk items (s, st) = Inr (s', st') \<Longrightarrow>
   stock_alerts st' = stock_alerts st"
proof (induction items arbitrary: s st)
  case Nil
  then show ?case by simp
next
  case (Cons item_data rest)
  from Cons.prems obtain s1 st1 where
    s1: "po_create_item po_pk item_data (s, st) = Inr (s1, st1)"
    and s2: "po_create_items_loop po_pk rest (s1, st1) = Inr (s', st')"
    by (auto split: sum.splits)
  from s1 have "stock_alerts st1 = stock_alerts st"
    by (auto simp: po_create_item_def Let_def split: option.splits)
  with Cons.IH [OF s2] show ?case by simp
qed

lemma po_create_alerts:
  "stock_alerts (snd (PurchaseOrderCreateView_create st user attrs)) = stock_alerts st"
  by (auto simp: PurchaseOrderCreateView_create_def po_create_def atomic_def Let_def
      dest: po_create_items_loop_alerts split: option.splits sum.splits)

lemma adjustment_alerts:
  "\<exists>new. stock_alerts (snd (StockAdjustmentView_post st user data)) = stock_alerts st @ new"
  by (auto simp: StockAdjustmentView_post_def atomic_def Let_def adjustment_split
      alert_get_or_create_def split: sum.splits list.splits)

lemma receive_alerts:
  "receive_purchase_order st user pk = (Inr (), st') \<Longrightarrow>
   stock_alerts st' = map (resolve_for (products_of (po_items st pk))) (stock_alerts st)"
  by (auto simp: receive_purchase_order_def atomic_def dest!: receive_items_loop_effect
      split: option.splits if_splits sum.splits)

lemma receive_alerts_any:
  "stock_alerts (snd (receive_purchase_order st user pk)) = stock_alerts st
   \<or> stock_alerts (snd (receive_purchase_order st user pk))
       = map (resolve_for (products_of (po_items st pk))) (stock_alerts st)"
  by (auto simp: receive_purchase_order_def atomic_def dest!: receive_items_loop_effect
      split: option.splits if_splits sum.splits)

text \<open>
  The data model's invariant, at most one open alert for a product, is kept by every
  operation.
\<close>

lemma one_open_alert_kept:
  assumes "length (open_alerts st j) \<le> 1"
  shows "length (open_alerts (snd (SaleCreateView_create st user attrs)) j) \<le> 1"
    and "length (open_alerts (snd (cancel_sale_view st sale_pk)) j) \<le> 1"
    and "length (open_alerts (snd (StockAdjustmentView_post st user data)) j) \<le> 1"
    and "length (open_alerts (snd (PurchaseOrderCreateView_create st user po_data)) j) \<le> 1"
    and "length (open_alerts (snd (receive_purchase_order st user pk)) j) \<le> 1"
    and "length (open_alerts (snd (cancel_purchase_order st pk)) j) \<le> 1"
proof -
  show "length (open_alerts (snd (SaleCreateView_create st user attrs)) j) \<le> 1"
    using assms by (simp add: open_alerts_def sale_alerts)
  show "length (open_alerts (snd (cancel_sale_view st sale_pk)) j) \<le> 1"
    using assms by (simp add: open_alerts_def cancel_sale_alerts)
  show "length (open_alerts (snd (PurchaseOrderCreateView_create st user po_data)) j) \<le> 1"
    using assms by (simp add: open_alerts_def po_create_alerts)
  show "length (open_alerts (snd (cancel_purchase_order st pk)) j) \<le> 1"
    using assms by (simp add: open_alerts_def cancel_po_alerts)
  show "length (open_alerts (snd (receive_purchase_order st user pk)) j) \<le> 1"
    using receive_alerts_any [of st user pk] assms
      resolve_for_open [of j "products_of (po_items st pk)" "stock_alerts st"]
    by (auto simp: open_alerts_def)
  show "length (open_alerts (snd (StockAdjustmentView_post st user data)) j) \<le> 1"
  proof (cases "StockAdjustmentSerializer_is_valid st data")
    case (Inl e)
    with assms show ?thesis by (simp add: StockAdjustmentView_post_def)
  next
    case (Inr product)
    let ?new = "adjusted_stock (adj_adjustment_type data) (stock_quantity product) (adj_quantity data)"
    let ?st1 = "st\<lparr> products := (products st)(adj_product_id data \<mapsto>
                      product\<lparr>stock_quantity := ?new\<rparr>),
                    stock_movements := stock_movements st @
                      [\<lparr> mv_product = adj_product_id data,
                         mv_movement_type = AdjustmentMovement,
                         mv_quantity = adjustment_delta (adj_adjustment_type data)
                                         (stock_quantity product) (adj_quantity data),
                         mv_previous_quantity = stock_quantity product,
                         mv_new_quantity = ?new, mv_unit_cost = None, mv_supplier = None,
                         mv_sale = None, mv_user = user \<rparr>] \<rparr>"
    from assms have o: "length (open_alerts ?st1 j) \<le> 1"
      by (simp add: open_alerts_def)
    show ?thesis
    proof (cases "alert_get_or_create (adj_product_id data) (min_stock_level product) ?new ?st1")
      case (Inl e)
      with assms o show ?thesis
        by (simp add: StockAdjustmentView_post_def Inr atomic_def Let_def adjustment_split)
    next
      case g: (Inr st2)
      from alert_get_or_create_open [OF g o] o show ?thesis
        by (simp add: StockAdjustmentView_post_def Inr atomic_def Let_def adjustment_split g)
    qed
  qed
qed

text \<open>
  Claim C6, as amended. Alerts are resolved by receiving a purchase order and by nothing
  else. A successful receive resolves every open alert of each product that an item of
  the order names, whatever stock results, and changes no other alert. A manual stock
  adjustment leaves every alert it found as it was and can only append one; sale
  creation, sale cancellation, purchase order creation and purchase order cancellation
  leave the alert table as it was, also when the stock ends above min_stock_level.
\<close>

theorem alerts_resolved_on_receipt_only:
  "(receive_purchase_order st user pk = (Inr (), st') \<longrightarrow>
      stock_alerts st' = map (resolve_for (products_of (po_items st pk))) (stock_alerts st)
      \<and> (\<forall>k\<in>products_of (po_items st pk). open_alerts st' k = []))
   \<and> take (length (stock_alerts st)) (stock_alerts (snd (StockAdjustmentView_post st user data)))
       = stock_alerts st
   \<and> stock_alerts (snd (SaleCreateView_create st user attrs)) = stock_alerts st
   \<and> stock_alerts (snd (cancel_sale_view st sale_pk)) = stock_alerts st
   \<and> stock_alerts (snd (PurchaseOrderCreateView_create st user po_data)) = stock_alerts st
   \<and> stock_alerts (snd (cancel_purchase_order st pk)) = stock_alerts st"
proof -
  have "stock_alerts st' = map (resolve_for (products_of (po_items st pk))) (stock_alerts st)
      \<and> (\<forall>k\<in>products_of (po_items st pk). open_alerts st' k = [])"
    if r: "receive_purchase_order st user pk = (Inr (), st')"
    using receive_alerts [OF r] open_alerts_resolved [OF receive_alerts [OF r]] by blast
  moreover obtain new where
    "stock_alerts (snd (StockAdjustmentView_post st user data)) = stock_alerts st @ new"
    using adjustment_alerts by blast
  then have "take (length (stock_alerts st))
      (stock_alerts (snd (StockAdjustmentView_post st user data))) = stock_alerts st"
    by simp
  ultimately show ?thesis
    using sale_alerts cancel_sale_alerts po_create_alerts cancel_po_alerts by blast
qed

theorem alerts_resolved_on_receipt_only_witness:
  "fst (receive_purchase_order shop_with_order 7 1) = Inr ()
   \<and> open_alerts shop_with_order 1 \<noteq> []
   \<and> 1 \<in> products_of (po_items shop_with_order 1)
   \<and> open_alerts (snd (receive_purchase_order shop_with_order 7 1)) 1 = []
   \<and> take (length (stock_alerts shop_with_order))
        (stock_alerts (snd (StockAdjustmentView_post shop_with_order 7 add_twenty)))
       = stock_alerts shop_with_order"
proof -
  have f: "fst (receive_purchase_order shop_with_order 7 1) = Inr ()" by code_simp
  then have r: "receive_purchase_order shop_with_order 7 1
      = (Inr (), snd (receive_purchase_order shop_with_order 7 1))"
    by (metis prod.collapse)
  have o: "open_alerts shop_with_order 1 \<noteq> []" by code_simp
  have k: "1 \<in> products_of (po_items shop_with_order 1)" by code_simp
  from alerts_resolved_on_receipt_only
    [of shop_with_order 7 1 "snd (receive_purchase_order shop_with_order 7 1)" add_twenty
       two_units 1 order_ten] r k
  have "open_alerts (snd (receive_purchase_order shop_with_order 7 1)) 1 = []"
    and "take (length (stock_alerts shop_with_order))
        (stock_alerts (snd (StockAdjustmentView_post shop_with_order 7 add_twenty)))
       = stock_alerts shop_with_order"
    by blast+
  with f o k show ?thesis by blast
qed

text \<open>
  Claim C6 as stated has every operation that leaves the stock above the threshold
  resolve the open alerts. In the example shop product 1 has stock 5, min_stock_level 10
  and one open alert; adding 20 by a manual adjustment leaves stock 25 and the alert
  open.
\<close>

theorem adjustment_leaves_alert_open_counterexample:
  "fst (StockAdjustmentView_post shop_with_order 7 add_twenty) \<noteq> Inl ValidationError
   \<and> map_option stock_quantity
       (products (snd (StockAdjustmentView_post shop_with_order 7 add_twenty)) 1) = Some 25
   \<and> map_option min_stock_level
       (products (snd (StockAdjustmentView_post shop_with_order 7 add_twenty)) 1) = Some 10
   \<and> open_alerts shop_with_order 1
       = [\<lparr> alert_product = 1, alert_level = 10, alert_current_stock = 5,
            alert_is_resolved = False \<rparr>]
   \<and> open_alerts (snd (StockAdjustmentView_post shop_with_order 7 add_twenty)) 1
       = open_alerts shop_with_order 1"
  by code_simp

section \<open>Purchase order creation\<close>








text \<open>
  Claim C9 as stated has the persisted tax amount equal to 16 percent of the subtotal.
  Three units at 0.33 give the subtotal 0.99, of which 16 percent is 0.1584; the tax
  amount column holds 0.16 and the total column 1.15.
\<close>

theorem po_tax_rounded_counterexample:
  "fst (PurchaseOrderCreateView_create shop 7 order_thirds) = Inr 1
   \<and> po_subtotal thirds_order = 99 / 100
   \<and> po_tax_amount thirds_order = 16 / 100
   \<and> po_total thirds_order = 115 / 100
   \<and> po_subtotal thirds_order * 16 / 100 = 99 / 625
   \<and> po_tax_amount thirds_order \<noteq> po_subtotal thirds_order * 16 / 100"
  by code_simp

section \<open>Sale items\<close>










text \<open>
  Claim C10 as stated has the stored subtotal equal to the inclusive amount. One unit at
  19.99 with 16 percent tax and no discount has the inclusive amount 23.1884; the
  subtotal column of its row holds 23.19.
\<close>

theorem sale_item_subtotal_rounded_counterexample:
  "fst (SaleCreateView_create corner_shop 7 one_unit) = Inr 1
   \<and> si_unit_price corner_item = 1999 / 100 \<and> si_quantity corner_item = 1
   \<and> si_discount_percent corner_item = 0 \<and> si_tax_rate corner_item = 16
   \<and> inclusive_amount corner_item = 57971 / 2500
   \<and> si_subtotal corner_item = 2319 / 100
   \<and> \<not> subtotal_inclusive corner_item"
  by code_simp

end
